theory Spec2Isabelle
  imports Complex_Main
begin

section \<open>Cosmic Bounce: the simulation core\<close>

text \<open>
  A shallow embedding of the physics and interaction code of the game canvas
  (\<^verbatim>\<open>components/GameCanvas.tsx\<close>) and of its vector helpers (\<^verbatim>\<open>utils/math.ts\<close>).

  Numbers. A JavaScript \<^verbatim>\<open>number\<close> is modelled as a \<^typ>\<open>real\<close>: rounding, overflow and
  the non-finite values are outside the model. The source guards every division but one:
  \<^verbatim>\<open>1 / distance\<close> in the ball-ball pass, which for two coincident centres yields a
  non-finite normal in JavaScript and \<open>0\<close> in HOL. In both readings the comparison
  \<^verbatim>\<open>vDotN < 0\<close> is then false, so velocities and the collision counter agree; statements
  about positions after a ball-ball collision assume distinct centres.

  Effects. The refs of the component (\<^verbatim>\<open>ballsRef\<close>, \<^verbatim>\<open>rotationRef\<close>,
  \<^verbatim>\<open>collisionCountRef\<close>, \<^verbatim>\<open>manualGapsRef\<close>, \<^verbatim>\<open>dragStateRef\<close>, \<^verbatim>\<open>mousePosRef\<close>,
  \<^verbatim>\<open>hoveredWallRef\<close>, the long-press refs, \<^verbatim>\<open>canvasRef\<close>) are the fields of one state
  record that every handler takes and returns. Drawing, sound and vibration do not touch
  that state and are left out. The values of \<^verbatim>\<open>Math.random()\<close> used by a respawn are a
  parameter.
\<close>

subsection \<open>Vector helpers (\<^verbatim>\<open>utils/math.ts\<close>)\<close>

record Vector2 =
  x :: real
  y :: real

definition add :: "Vector2 \<Rightarrow> Vector2 \<Rightarrow> Vector2" where
  "add v1 v2 = \<lparr>x = x v1 + x v2, y = y v1 + y v2\<rparr>"

definition sub :: "Vector2 \<Rightarrow> Vector2 \<Rightarrow> Vector2" where
  "sub v1 v2 = \<lparr>x = x v1 - x v2, y = y v1 - y v2\<rparr>"

definition mult :: "Vector2 \<Rightarrow> real \<Rightarrow> Vector2" where
  "mult v s = \<lparr>x = x v * s, y = y v * s\<rparr>"

definition dot :: "Vector2 \<Rightarrow> Vector2 \<Rightarrow> real" where
  "dot v1 v2 = x v1 * x v2 + y v1 * y v2"

definition mag :: "Vector2 \<Rightarrow> real" where
  "mag v = sqrt (x v * x v + y v * y v)"

definition distSq :: "Vector2 \<Rightarrow> Vector2 \<Rightarrow> real" where
  "distSq v1 v2 = (let dx = x v1 - x v2; dy = y v1 - y v2 in dx * dx + dy * dy)"

text \<open>\<^verbatim>\<open>normalize\<close> and \<^verbatim>\<open>dist\<close> carry a suffix: both names are taken in HOL.\<close>

definition normalizeV :: "Vector2 \<Rightarrow> Vector2" where
  "normalizeV v =
     (let m = mag v
      in if m = 0 then \<lparr>x = 0, y = 0\<rparr> else \<lparr>x = x v / m, y = y v / m\<rparr>)"

definition distV :: "Vector2 \<Rightarrow> Vector2 \<Rightarrow> real" where
  "distV v1 v2 = mag (sub v1 v2)"

definition rotatePoint :: "Vector2 \<Rightarrow> Vector2 \<Rightarrow> real \<Rightarrow> Vector2" where
  "rotatePoint point center angle =
     (let c = cos angle; s = sin angle;
          dx = x point - x center; dy = y point - y center
      in \<lparr>x = x center + (dx * c - dy * s), y = y center + (dx * s + dy * c)\<rparr>)"

text \<open>The result of \<^verbatim>\<open>distToSegment\<close>: \<^verbatim>\<open>{ dist, closest, normal }\<close>.\<close>

record SegmentDistance =
  dist_seg :: real
  closest :: Vector2
  normal :: Vector2

definition distToSegment :: "Vector2 \<Rightarrow> Vector2 \<Rightarrow> Vector2 \<Rightarrow> SegmentDistance" where
  "distToSegment p a b =
     (let ab = sub b a; ap = sub p a; abLenSq = dot ab ab
      in if abLenSq = 0
         then \<lparr>dist_seg = distV p a, closest = a, normal = \<lparr>x = 0, y = - 1\<rparr>\<rparr>
         else
           let t = max 0 (min 1 (dot ap ab / abLenSq));
               c = add a (mult ab t);
               distance = distV p c;
               n0 = normalizeV (sub p c);
               n = (if x n0 = 0 \<and> y n0 = 0
                    then normalizeV \<lparr>x = - y ab, y = x ab\<rparr> else n0)
           in \<lparr>dist_seg = distance, closest = c, normal = n\<rparr>)"

subsection \<open>Data (\<^verbatim>\<open>types.ts\<close> and the refs of the canvas component)\<close>

text \<open>A colour is one of the palette strings or \<^verbatim>\<open>hsl(h, 80%, 60%)\<close> with a drawn hue.\<close>

datatype Colour = Palette string | Hsl real

text \<open>\<^verbatim>\<open>Ball.id\<close> carries a prefix: \<open>id\<close> is the identity function of HOL.\<close>

record Ball =
  ball_id :: real
  pos :: Vector2
  vel :: Vector2
  radius :: real
  color :: Colour
  trail :: "Vector2 list"
  isPinned :: bool

text \<open>
  The fields of \<^verbatim>\<open>GameConfig\<close> that the simulation and the pointer handlers read. The
  counts come from \<^verbatim>\<open>parseInt\<close> of sliders with a minimum of at least \<open>0\<close>. The flag
  \<^verbatim>\<open>recordWallCollisions\<close> is read by the wall code but is not declared in the
  \<^verbatim>\<open>GameConfig\<close> interface at hand; it is a field here (an absent property reads as
  \<^verbatim>\<open>undefined\<close>, which is falsy: \<open>False\<close>).
\<close>

record GameConfig =
  polygonSides :: nat
  isCircle :: bool
  gapCount :: nat
  rotationSpeed :: real
  gravity :: real
  elasticity :: real
  isReductionMode :: bool
  isGodMode :: bool
  enableBallCollisions :: bool
  polygonLayers :: nat
  layerSpacing :: real
  baseScale :: real
  isDestructible :: bool
  randomSpawn :: bool
  micControlEnabled :: bool
  micSensitivity :: real
  recordWallCollisions :: bool

text \<open>\<^verbatim>\<open>DragState\<close>; \<^verbatim>\<open>null\<close> is \<open>None\<close> of the option type.\<close>

datatype DragState = BALL real Vector2 | VELOCITY real

fun dragId :: "DragState \<Rightarrow> real" where
  "dragId (BALL i offset) = i"
| "dragId (VELOCITY i) = i"

text \<open>
  The refs. \<open>canvasRect\<close> is the top-left corner of the canvas' bounding rectangle, \<open>None\<close>
  while the canvas is not mounted; \<open>longPressTimer\<close> tells whether a long-press timeout is
  pending.
\<close>

record State =
  balls :: "Ball list"
  rotation :: real
  collisionCount :: nat
  manualGaps :: "string set"
  dragState :: "DragState option"
  mousePos :: Vector2
  hoveredWall :: "string option"
  longPressTimer :: bool
  longPressStartPos :: "Vector2 option"
  canvasRect :: "Vector2 option"

text \<open>\<^verbatim>\<open>window.innerWidth\<close> and \<^verbatim>\<open>window.innerHeight\<close>, read once per frame.\<close>

record Viewport =
  width :: real
  height :: real

definition SUB_STEPS :: nat where
  "SUB_STEPS = 10"

definition center :: "Viewport \<Rightarrow> Vector2" where
  "center env = \<lparr>x = width env / 2, y = height env / 2\<rparr>"

definition maxRadius :: "GameConfig \<Rightarrow> Viewport \<Rightarrow> real" where
  "maxRadius cfg env = min (width env) (height env) * 0.45 * baseScale cfg"

definition sides :: "GameConfig \<Rightarrow> nat" where
  "sides cfg = max 3 (polygonSides cfg)"

definition angleStep :: "GameConfig \<Rightarrow> real" where
  "angleStep cfg = (pi * 2) / real (sides cfg)"

subsection \<open>Wall identifiers\<close>

text \<open>The template string \<^verbatim>\<open>`${layer}-${i}`\<close> of two loop counters, printed in decimal.\<close>

definition digitChar :: "nat \<Rightarrow> char" where
  "digitChar d = ''0123456789'' ! d"

function showNat :: "nat \<Rightarrow> string" where
  "showNat n = (if n < 10 then [digitChar n] else showNat (n div 10) @ [digitChar (n mod 10)])"
  by pat_completeness auto
termination
  by (relation "measure (\<lambda>n. n)") auto

declare showNat.simps [simp del]

definition wallId :: "nat \<Rightarrow> nat \<Rightarrow> string" where
  "wallId layer i = showNat layer @ ''-'' @ showNat i"

subsection \<open>Library functions of JavaScript\<close>

text \<open>\<^verbatim>\<open>Math.atan2(b, a)\<close>: the angle of the point \<open>(a, b)\<close>, in \<open>(-\<pi>, \<pi>]\<close>.\<close>

definition atan2 :: "real \<Rightarrow> real \<Rightarrow> real" where
  "atan2 b a =
     (if 0 < a then arctan (b / a)
      else if a < 0 \<and> 0 \<le> b then arctan (b / a) + pi
      else if a < 0 then arctan (b / a) - pi
      else if 0 < b then pi / 2
      else if b < 0 then - (pi / 2)
      else 0)"

text \<open>The remainder operator \<^verbatim>\<open>%\<close>: the quotient is truncated towards zero.\<close>

definition jsRem :: "real \<Rightarrow> real \<Rightarrow> real" where
  "jsRem a b =
     (let q = a / b;
          tq = (if 0 \<le> q then of_int \<lfloor>q\<rfloor> else of_int \<lceil>q\<rceil>)
      in a - b * tq)"

subsection \<open>The physics of one frame (\<^verbatim>\<open>update\<close>)\<close>

text \<open>
  Audio analysis: \<open>micAverage\<close> is the average of the analyser's frequency data, \<open>None\<close>
  when there is no analyser.
\<close>

definition currentElasticity :: "GameConfig \<Rightarrow> real option \<Rightarrow> real" where
  "currentElasticity cfg micAverage =
     (case micAverage of
        None \<Rightarrow> elasticity cfg
      | Some average \<Rightarrow>
          if micControlEnabled cfg
          then (let micVolume = min 1 (average / 128)
                in 0.5 + micVolume * micSensitivity cfg * 0.4)
          else elasticity cfg)"

text \<open>1. Move Ball: gravity, damping, the anti-tunneling clamp, the position update.\<close>

definition integrate :: "GameConfig \<Rightarrow> Ball \<Rightarrow> Ball" where
  "integrate cfg ball =
     (let v1 = (vel ball)\<lparr>y := y (vel ball) + gravity cfg / real SUB_STEPS\<rparr>;
          v2 = mult v1 (0.9995 powr (1 / real SUB_STEPS));
          currentSpeed = mag v2;
          maxStepSpeed = radius ball * 0.8;
          maxFrameSpeed = maxStepSpeed * real SUB_STEPS;
          v3 = (if currentSpeed > maxFrameSpeed
                then mult v2 (maxFrameSpeed / currentSpeed) else v2)
      in ball\<lparr>vel := v3, pos := add (pos ball) (mult v3 (1 / real SUB_STEPS))\<rparr>)"

text \<open>
  2. Ball-Ball Collision. \<open>collide\<close> is the body of the loop over \<open>j\<close> once \<open>ball\<close> and
  \<open>other\<close> are read: it returns both balls and the number of increments of the collision
  counter. \<open>collidePair\<close> reads the two balls and writes them back.
\<close>

definition collide :: "GameConfig \<Rightarrow> real \<Rightarrow> Ball \<Rightarrow> Ball \<Rightarrow> Ball \<times> Ball \<times> nat" where
  "collide cfg elast ball other =
     (if \<not> enableBallCollisions cfg \<and> \<not> isPinned other then (ball, other, 0)
      else
        let distSqVal = distSq (pos ball) (pos other);
            minDist = radius ball + radius other
        in if distSqVal < minDist * minDist
           then
             let distance = sqrt distSqVal;
                 n = mult (sub (pos ball) (pos other)) (1 / distance);
                 overlap = minDist - distance
             in if isPinned other
                then
                  let ball1 = ball\<lparr>pos := add (pos ball) (mult n overlap)\<rparr>;
                      vDotN = dot (vel ball1) n
                  in if vDotN < 0
                     then (ball1\<lparr>vel := mult (sub (vel ball1) (mult n (2 * vDotN))) elast\<rparr>,
                           other, 1)
                     else (ball1, other, 0)
                else
                  let push = mult n (overlap * 0.5);
                      ball1 = ball\<lparr>pos := add (pos ball) push\<rparr>;
                      other1 = other\<lparr>pos := sub (pos other) push\<rparr>;
                      relVel = sub (vel ball1) (vel other1);
                      sepVel = dot relVel n
                  in if sepVel < 0
                     then
                       let impulse = mult n sepVel
                       in (ball1\<lparr>vel := mult (sub (vel ball1) impulse) 0.99\<rparr>,
                           other1\<lparr>vel := mult (add (vel other1) impulse) 0.99\<rparr>, 1)
                     else (ball1, other1, 0)
           else (ball, other, 0))"

definition collidePair :: "GameConfig \<Rightarrow> real \<Rightarrow> nat \<Rightarrow> nat \<Rightarrow> State \<Rightarrow> State" where
  "collidePair cfg elast b j st =
     (if b = j then st
      else
        case collide cfg elast (balls st ! b) (balls st ! j) of
          (ball', other', k) \<Rightarrow>
            st\<lparr>balls := (balls st)[b := ball', j := other'],
               collisionCount := collisionCount st + k\<rparr>)"

definition ballBallPass :: "GameConfig \<Rightarrow> real \<Rightarrow> nat \<Rightarrow> nat \<Rightarrow> State \<Rightarrow> State" where
  "ballBallPass cfg elast step b st =
     (if (enableBallCollisions cfg \<or> list_ex isPinned (balls st))
         \<and> (SUB_STEPS < 4 \<or> step mod 2 = 0)
      then fold (collidePair cfg elast b) [0..<length (balls st)] st
      else st)"

text \<open>
  3. Wall Collision. The wall code changes the ball, the manual gaps and the collision
  counter; these three are threaded through the iteration over layers and sides.
\<close>

type_synonym WallCtx = "Ball \<times> string set \<times> nat"

definition countWallHit :: "GameConfig \<Rightarrow> nat \<Rightarrow> nat" where
  "countWallHit cfg cnt =
     (if \<not> enableBallCollisions cfg \<or> recordWallCollisions cfg then cnt + 1 else cnt)"

definition breakWall :: "GameConfig \<Rightarrow> string \<Rightarrow> string set \<Rightarrow> string set" where
  "breakWall cfg wid gaps = (if isDestructible cfg then insert wid gaps else gaps)"

text \<open>Circle Logic: the automatic gap is the arc behind \<open>drawAngle\<close>.\<close>

definition circleAutoGap :: "GameConfig \<Rightarrow> Viewport \<Rightarrow> real \<Rightarrow> Ball \<Rightarrow> bool" where
  "circleAutoGap cfg env currentRotation ball =
     (0 < gapCount cfg \<and>
      (let angle = atan2 (y (pos ball) - y (center env)) (x (pos ball) - x (center env));
           relAngle0 = jsRem (angle - currentRotation) (pi * 2);
           relAngle = (if relAngle0 < 0 then relAngle0 + pi * 2 else relAngle0);
           drawAngle = ((real (sides cfg) - real (gapCount cfg)) / real (sides cfg)) * pi * 2
       in relAngle > drawAngle))"

definition circleNormal :: "Viewport \<Rightarrow> real \<Rightarrow> Ball \<Rightarrow> Vector2" where
  "circleNormal env layerRadius ball =
     (let distToCenter = mag (sub (pos ball) (center env));
          wallNormal = normalizeV (sub (center env) (pos ball))
      in if distToCenter > layerRadius then mult wallNormal (- 1) else wallNormal)"

definition circleWall ::
  "GameConfig \<Rightarrow> real \<Rightarrow> Viewport \<Rightarrow> real \<Rightarrow> nat \<Rightarrow> real \<Rightarrow> WallCtx \<Rightarrow> WallCtx" where
  "circleWall cfg elast env currentRotation layer layerRadius ctx =
     (case ctx of (ball, gaps, cnt) \<Rightarrow>
        let distToCenter = mag (sub (pos ball) (center env));
            wid = wallId layer 0;
            isInGap = (circleAutoGap cfg env currentRotation ball \<or> wid \<in> gaps)
        in if \<not> isInGap
           then
             let distToEdge = \<bar>distToCenter - layerRadius\<bar>
             in if distToEdge < radius ball
                then
                  let wallNormal = circleNormal env layerRadius ball
                  in if dot (vel ball) wallNormal < 0
                     then
                       let vDotN = dot (vel ball) wallNormal;
                           v1 = sub (vel ball) (mult wallNormal (2 * vDotN));
                           v2 = mult v1 elast;
                           tangent = \<lparr>x = - y wallNormal, y = x wallNormal\<rparr>;
                           v3 = add v2 (mult tangent (rotationSpeed cfg * layerRadius * 0.05));
                           pen = radius ball - distToEdge
                       in (ball\<lparr>vel := v3, pos := add (pos ball) (mult wallNormal pen)\<rparr>,
                           breakWall cfg wid gaps, countWallHit cfg cnt)
                     else ctx
                else ctx
           else ctx)"

text \<open>Polygon Logic: the vertices of a layer, then one side.\<close>

definition layerVertices :: "GameConfig \<Rightarrow> Viewport \<Rightarrow> real \<Rightarrow> real \<Rightarrow> Vector2 list" where
  "layerVertices cfg env currentRotation layerRadius =
     map (\<lambda>i. \<lparr>x = x (center env) + cos (currentRotation + real i * angleStep cfg) * layerRadius,
               y = y (center env) + sin (currentRotation + real i * angleStep cfg) * layerRadius\<rparr>)
         [0..<sides cfg]"

definition isAutoGap :: "GameConfig \<Rightarrow> nat \<Rightarrow> bool" where
  "isAutoGap cfg i = (real i \<ge> real (sides cfg) - real (gapCount cfg))"

definition polygonSide ::
  "GameConfig \<Rightarrow> real \<Rightarrow> nat \<Rightarrow> Vector2 list \<Rightarrow> nat \<Rightarrow> WallCtx \<Rightarrow> WallCtx" where
  "polygonSide cfg elast layer verts i ctx =
     (case ctx of (ball, gaps, cnt) \<Rightarrow>
        let wid = wallId layer i;
            isManualGap = (wid \<in> gaps)
        in if isAutoGap cfg i \<or> isManualGap then ctx
           else
             let p1 = verts ! i;
                 p2 = verts ! ((i + 1) mod sides cfg);
                 sd = distToSegment (pos ball) p1 p2;
                 d = dist_seg sd;
                 n = normal sd
             in if d < radius ball
                then
                  if dot (vel ball) n < 0
                  then
                    let vDotN = dot (vel ball) n;
                        v1 = sub (vel ball) (mult n (2 * vDotN));
                        v2 = mult v1 elast;
                        wallVector = sub p2 p1;
                        wallTangent = normalizeV wallVector;
                        v3 = add v2 (mult wallTangent (rotationSpeed cfg * 40))
                    in (ball\<lparr>vel := v3, pos := add (pos ball) (mult n (radius ball - d))\<rparr>,
                        breakWall cfg wid gaps, countWallHit cfg cnt)
                  else if d < radius ball * 0.5
                  then (ball\<lparr>pos := add (pos ball) (mult n (radius ball - d))\<rparr>, gaps, cnt)
                  else ctx
                else ctx)"

definition layerRadiusOf :: "GameConfig \<Rightarrow> Viewport \<Rightarrow> nat \<Rightarrow> real" where
  "layerRadiusOf cfg env layer = maxRadius cfg env - real layer * layerSpacing cfg"

definition wallLayer ::
  "GameConfig \<Rightarrow> real \<Rightarrow> Viewport \<Rightarrow> real \<Rightarrow> nat \<Rightarrow> WallCtx \<Rightarrow> WallCtx" where
  "wallLayer cfg elast env currentRotation layer ctx =
     (let layerRadius = layerRadiusOf cfg env layer
      in if layerRadius \<le> 0 then ctx
         else if isCircle cfg
         then circleWall cfg elast env currentRotation layer layerRadius ctx
         else fold (polygonSide cfg elast layer
                      (layerVertices cfg env currentRotation layerRadius))
                [0..<sides cfg] ctx)"

definition wallPass :: "GameConfig \<Rightarrow> real \<Rightarrow> Viewport \<Rightarrow> real \<Rightarrow> WallCtx \<Rightarrow> WallCtx" where
  "wallPass cfg elast env currentRotation ctx =
     fold (wallLayer cfg elast env currentRotation) [0..<polygonLayers cfg] ctx"

text \<open>
  Boundary and Reduction. \<open>rnd k\<close> is the value of the \<open>k\<close>-th call of \<^verbatim>\<open>Math.random()\<close>
  made by this respawn.
\<close>

definition respawn :: "GameConfig \<Rightarrow> Viewport \<Rightarrow> (nat \<Rightarrow> real) \<Rightarrow> Ball \<Rightarrow> Ball" where
  "respawn cfg env rnd ball =
     (if randomSpawn cfg
      then
        let maxDim = min (width env) (height env) * 0.4 * baseScale cfg;
            angle = rnd 0 * pi * 2;
            r = rnd 1 * maxDim
        in ball\<lparr>pos := \<lparr>x = x (center env) + cos angle * r, y = y (center env) + sin angle * r\<rparr>,
                color := Hsl (rnd 2 * 360), trail := []\<rparr>
      else if micControlEnabled cfg
      then ball\<lparr>pos := \<lparr>x = x (center env) + (rnd 0 - 0.5) * 100,
                        y = y (center env) + maxRadius cfg env - 20\<rparr>,
                vel := \<lparr>x = 0, y = 0\<rparr>, trail := []\<rparr>
      else ball\<lparr>pos := \<lparr>x = x (center env), y = y (center env)\<rparr>,
                vel := \<lparr>x = (rnd 0 - 0.5) * 5, y = (rnd 1 - 0.5) * 5\<rparr>, trail := []\<rparr>)"

definition boundary :: "GameConfig \<Rightarrow> Viewport \<Rightarrow> (nat \<Rightarrow> real) \<Rightarrow> nat \<Rightarrow> State \<Rightarrow> State" where
  "boundary cfg env rnd b st =
     (let ball = balls st ! b;
          distFromCenter = mag (sub (pos ball) (center env));
          outerBound = max (width env) (height env) + 100
      in if distFromCenter > outerBound
         then
           if isReductionMode cfg
           then st\<lparr>balls := take b (balls st) @ drop (Suc b) (balls st)\<rparr>
           else st\<lparr>balls := (balls st)[b := respawn cfg env rnd ball]\<rparr>
         else st)"

text \<open>
  Process Balls: the body of the loop over \<open>b\<close>, and the loop itself, which runs from the
  last index down to \<open>0\<close>. \<open>rnd step b\<close> gives the random values of a respawn of ball \<open>b\<close>
  in sub-step \<open>step\<close>.
\<close>

definition processBall ::
  "GameConfig \<Rightarrow> real \<Rightarrow> Viewport \<Rightarrow> (nat \<Rightarrow> nat \<Rightarrow> nat \<Rightarrow> real) \<Rightarrow> nat \<Rightarrow> nat \<Rightarrow> State \<Rightarrow> State"
  where
  "processBall cfg elast env rnd step b st =
     (if isPinned (balls st ! b) then st
      else
        let st1 = st\<lparr>balls := (balls st)[b := integrate cfg (balls st ! b)]\<rparr>;
            st2 = ballBallPass cfg elast step b st1
        in case wallPass cfg elast env (rotation st2)
                  (balls st2 ! b, manualGaps st2, collisionCount st2) of
             (ball3, gaps3, cnt3) \<Rightarrow>
               boundary cfg env (rnd step b) b
                 (st2\<lparr>balls := (balls st2)[b := ball3], manualGaps := gaps3,
                      collisionCount := cnt3\<rparr>))"

fun processBalls ::
  "GameConfig \<Rightarrow> real \<Rightarrow> Viewport \<Rightarrow> (nat \<Rightarrow> nat \<Rightarrow> nat \<Rightarrow> real) \<Rightarrow> nat \<Rightarrow> nat \<Rightarrow> State \<Rightarrow> State"
  where
  "processBalls cfg elast env rnd step 0 st = st"
| "processBalls cfg elast env rnd step (Suc b) st =
     processBalls cfg elast env rnd step b (processBall cfg elast env rnd step b st)"

definition subStep ::
  "GameConfig \<Rightarrow> real \<Rightarrow> Viewport \<Rightarrow> (nat \<Rightarrow> nat \<Rightarrow> nat \<Rightarrow> real) \<Rightarrow> nat \<Rightarrow> State \<Rightarrow> State"
  where
  "subStep cfg elast env rnd step st =
     (let st1 = st\<lparr>rotation := rotation st + rotationSpeed cfg / real SUB_STEPS\<rparr>
      in processBalls cfg elast env rnd step (length (balls st1)) st1)"

text \<open>Update Trails, once per frame.\<close>

definition updateTrail :: "Ball \<Rightarrow> Ball" where
  "updateTrail ball =
     (if \<bar>x (vel ball)\<bar> + \<bar>y (vel ball)\<bar> > 0.5 \<and> \<not> isPinned ball
      then
        let t = trail ball @ [pos ball]
        in ball\<lparr>trail := (if length t > 15 then tl t else t)\<rparr>
      else ball)"

definition physics ::
  "GameConfig \<Rightarrow> bool \<Rightarrow> Viewport \<Rightarrow> real option \<Rightarrow> (nat \<Rightarrow> nat \<Rightarrow> nat \<Rightarrow> real) \<Rightarrow> State \<Rightarrow> State"
  where
  "physics cfg paused env micAverage rnd st =
     (if \<not> paused
      then
        let st1 = fold (subStep cfg (currentElasticity cfg micAverage) env rnd) [0..<SUB_STEPS] st
        in st1\<lparr>balls := map updateTrail (balls st1)\<rparr>
      else st)"

subsection \<open>The hover check of the rendering pass (\<^verbatim>\<open>update\<close>)\<close>

text \<open>
  \<^verbatim>\<open>hoveredWallRef\<close> is reset to \<^verbatim>\<open>null\<close>, then the layers and their sides are drawn in
  order; \<open>hov\<close> is the value of the ref while they are.
\<close>

definition hoverCircle ::
  "GameConfig \<Rightarrow> bool \<Rightarrow> Viewport \<Rightarrow> Vector2 \<Rightarrow> nat \<Rightarrow> real \<Rightarrow> string option \<Rightarrow> string option"
  where
  "hoverCircle cfg paused env mouse layer layerRadius hov =
     (if isGodMode cfg \<and> paused \<and> hov = None
      then
        let distToMouse = \<bar>mag (sub mouse (center env)) - layerRadius\<bar>
        in if distToMouse < 20 then Some (wallId layer 0) else hov
      else hov)"

definition hoverSide ::
  "GameConfig \<Rightarrow> bool \<Rightarrow> Vector2 \<Rightarrow> nat \<Rightarrow> Vector2 list \<Rightarrow> nat \<Rightarrow> string option \<Rightarrow> string option"
  where
  "hoverSide cfg paused mouse layer verts i hov =
     (let p1 = verts ! i;
          p2 = verts ! ((i + 1) mod sides cfg)
      in if isAutoGap cfg i then hov
         else if isGodMode cfg \<and> paused \<and> hov = None
         then if dist_seg (distToSegment mouse p1 p2) < 20 then Some (wallId layer i) else hov
         else hov)"

definition hoverLayer ::
  "GameConfig \<Rightarrow> bool \<Rightarrow> Viewport \<Rightarrow> real \<Rightarrow> Vector2 \<Rightarrow> nat \<Rightarrow> string option \<Rightarrow> string option"
  where
  "hoverLayer cfg paused env renderRotation mouse layer hov =
     (let layerRadius = layerRadiusOf cfg env layer
      in if layerRadius \<le> 0 then hov
         else if isCircle cfg
         then hoverCircle cfg paused env mouse layer layerRadius hov
         else fold (hoverSide cfg paused mouse layer
                      (layerVertices cfg env renderRotation layerRadius))
                [0..<sides cfg] hov)"

definition hoverPass :: "GameConfig \<Rightarrow> bool \<Rightarrow> Viewport \<Rightarrow> State \<Rightarrow> string option" where
  "hoverPass cfg paused env st =
     fold (hoverLayer cfg paused env (rotation st) (mousePos st)) [0..<polygonLayers cfg] None"

text \<open>One animation frame: the physics loop unless paused, then the rendering pass.\<close>

definition update ::
  "GameConfig \<Rightarrow> bool \<Rightarrow> Viewport \<Rightarrow> real option \<Rightarrow> (nat \<Rightarrow> nat \<Rightarrow> nat \<Rightarrow> real) \<Rightarrow> State \<Rightarrow> State"
  where
  "update cfg paused env micAverage rnd st =
     (let st1 = physics cfg paused env micAverage rnd st
      in st1\<lparr>hoveredWall := hoverPass cfg paused env st1\<rparr>)"

subsection \<open>Interaction handlers\<close>

text \<open>\<^verbatim>\<open>togglePin\<close>: the first ball under the point changes its pin; the result tells whether
  one was found.\<close>

fun togglePin :: "Vector2 \<Rightarrow> Ball list \<Rightarrow> bool \<times> Ball list" where
  "togglePin p [] = (False, [])"
| "togglePin p (ball # rest) =
     (if distV p (pos ball) < radius ball + 15
      then
        (True,
         (if \<not> isPinned ball
          then ball\<lparr>isPinned := True, vel := \<lparr>x = 0, y = 0\<rparr>\<rparr>
          else ball\<lparr>isPinned := False\<rparr>) # rest)
      else (case togglePin p rest of (found, rest') \<Rightarrow> (found, ball # rest')))"

text \<open>A pointer event: the button and the client coordinates.\<close>

record PointerEvent =
  button :: int
  clientX :: real
  clientY :: real

definition mouseOf :: "PointerEvent \<Rightarrow> Vector2 \<Rightarrow> Vector2" where
  "mouseOf e rect = \<lparr>x = clientX e - x rect, y = clientY e - y rect\<rparr>"

definition toggleWall :: "string \<Rightarrow> string set \<Rightarrow> string set" where
  "toggleWall wid gaps = (if wid \<in> gaps then gaps - {wid} else insert wid gaps)"

definition handlePointerDown :: "GameConfig \<Rightarrow> bool \<Rightarrow> PointerEvent \<Rightarrow> State \<Rightarrow> State" where
  "handlePointerDown cfg paused e st =
     (if \<not> isGodMode cfg \<or> \<not> paused then st
      else if button e \<noteq> 0 then st
      else
        case canvasRect st of
          None \<Rightarrow> st
        | Some rect \<Rightarrow>
            let mp = mouseOf e rect;
                st1 = st\<lparr>mousePos := mp, longPressStartPos := Some mp, longPressTimer := True\<rparr>
            in case find (\<lambda>ball. distV mp (add (pos ball) (mult (vel ball) 10)) < 10) (balls st1) of
                 Some ball \<Rightarrow> st1\<lparr>dragState := Some (VELOCITY (ball_id ball))\<rparr>
               | None \<Rightarrow>
                   (case find (\<lambda>ball. distV mp (pos ball) < radius ball + 5) (balls st1) of
                      Some ball \<Rightarrow>
                        st1\<lparr>dragState := Some (BALL (ball_id ball) (sub (pos ball) mp))\<rparr>
                    | None \<Rightarrow>
                        (case hoveredWall st1 of
                           None \<Rightarrow> st1
                         | Some wid \<Rightarrow> st1\<lparr>manualGaps := toggleWall wid (manualGaps st1)\<rparr>)))"

text \<open>The long-press timeout set by \<^verbatim>\<open>handlePointerDown\<close>, when it fires.\<close>

definition longPressFire :: "State \<Rightarrow> State" where
  "longPressFire st =
     (if longPressTimer st
      then
        case togglePin (mousePos st) (balls st) of
          (success, bs) \<Rightarrow>
            st\<lparr>balls := bs, dragState := (if success then None else dragState st),
               longPressTimer := False\<rparr>
      else st)"

text \<open>\<^verbatim>\<open>Array.find\<close> on the id, as the index of the first ball with that id.\<close>

fun findBall :: "real \<Rightarrow> Ball list \<Rightarrow> nat option" where
  "findBall i [] = None"
| "findBall i (ball # rest) =
     (if ball_id ball = i then Some 0 else map_option Suc (findBall i rest))"

definition dragBall :: "Vector2 \<Rightarrow> DragState \<Rightarrow> Ball \<Rightarrow> Ball" where
  "dragBall mp d ball =
     (case d of
        BALL i offset \<Rightarrow> ball\<lparr>pos := add mp offset, trail := []\<rparr>
      | VELOCITY i \<Rightarrow> ball\<lparr>vel := mult (sub mp (pos ball)) 0.1\<rparr>)"

definition handlePointerMove :: "PointerEvent \<Rightarrow> State \<Rightarrow> State" where
  "handlePointerMove e st =
     (case canvasRect st of
        None \<Rightarrow> st
      | Some rect \<Rightarrow>
          let mp = mouseOf e rect;
              st1 = st\<lparr>mousePos := mp\<rparr>;
              st2 = (case longPressStartPos st1 of
                       None \<Rightarrow> st1
                     | Some start \<Rightarrow>
                         if longPressTimer st1 \<and> distV mp start > 10
                         then st1\<lparr>longPressTimer := False\<rparr> else st1)
          in case dragState st2 of
               None \<Rightarrow> st2
             | Some d \<Rightarrow>
                 (case findBall (dragId d) (balls st2) of
                    None \<Rightarrow> st2
                  | Some k \<Rightarrow>
                      if isPinned (balls st2 ! k) then st2
                      else st2\<lparr>balls := (balls st2)[k := dragBall mp d (balls st2 ! k)]\<rparr>))"

definition handlePointerUp :: "State \<Rightarrow> State" where
  "handlePointerUp st = st\<lparr>longPressTimer := False, dragState := None\<rparr>"

definition handleContextMenu :: "GameConfig \<Rightarrow> PointerEvent \<Rightarrow> State \<Rightarrow> State" where
  "handleContextMenu cfg e st =
     (if \<not> isGodMode cfg then st
      else
        case canvasRect st of
          None \<Rightarrow> st
        | Some rect \<Rightarrow> st\<lparr>balls := snd (togglePin (mouseOf e rect) (balls st))\<rparr>)"

text \<open>
  For the statements below: no velocity handle, and no ball, lies under the point \<open>mp\<close>
  (the two hit tests of \<^verbatim>\<open>handlePointerDown\<close> that come before the wall check).
\<close>

definition noHandleHit :: "Vector2 \<Rightarrow> Ball list \<Rightarrow> bool" where
  "noHandleHit mp bs = (\<forall>ball \<in> set bs. \<not> distV mp (add (pos ball) (mult (vel ball) 10)) < 10)"

definition noBallHit :: "Vector2 \<Rightarrow> Ball list \<Rightarrow> bool" where
  "noBallHit mp bs = (\<forall>ball \<in> set bs. \<not> distV mp (pos ball) < radius ball + 5)"

text \<open>For the statements below: the contact normal that \<open>collide\<close> computes.\<close>

definition contactNormal :: "Ball \<Rightarrow> Ball \<Rightarrow> Vector2" where
  "contactNormal ball other =
     mult (sub (pos ball) (pos other)) (1 / sqrt (distSq (pos ball) (pos other)))"

text \<open>
  For the statements below: the conditions under which \<open>circleWall\<close> and \<open>polygonSide\<close>
  resolve a collision (the wall is present, the ball overlaps it and moves into it).
\<close>

definition circleHit ::
  "GameConfig \<Rightarrow> Viewport \<Rightarrow> real \<Rightarrow> nat \<Rightarrow> real \<Rightarrow> Ball \<Rightarrow> string set \<Rightarrow> bool" where
  "circleHit cfg env currentRotation layer layerRadius ball gaps =
     (\<not> circleAutoGap cfg env currentRotation ball \<and> wallId layer 0 \<notin> gaps
      \<and> \<bar>mag (sub (pos ball) (center env)) - layerRadius\<bar> < radius ball
      \<and> dot (vel ball) (circleNormal env layerRadius ball) < 0)"

definition sideHit ::
  "GameConfig \<Rightarrow> nat \<Rightarrow> Vector2 list \<Rightarrow> nat \<Rightarrow> Ball \<Rightarrow> string set \<Rightarrow> bool" where
  "sideHit cfg layer verts i ball gaps =
     (\<not> isAutoGap cfg i \<and> wallId layer i \<notin> gaps
      \<and> dist_seg (distToSegment (pos ball) (verts ! i) (verts ! ((i + 1) mod sides cfg)))
          < radius ball
      \<and> dot (vel ball)
           (normal (distToSegment (pos ball) (verts ! i) (verts ! ((i + 1) mod sides cfg)))) < 0)"

text \<open>
  For the statements below: wall \<open>i\<close> of layer \<open>layer\<close> is drawn and lies within the hover
  tolerance of \<open>20\<close> pixels of the pointer.
\<close>

definition wallNear :: "GameConfig \<Rightarrow> Viewport \<Rightarrow> real \<Rightarrow> Vector2 \<Rightarrow> nat \<Rightarrow> nat \<Rightarrow> bool" where
  "wallNear cfg env renderRotation mouse layer i =
     (0 < layerRadiusOf cfg env layer \<and>
      (if isCircle cfg
       then i = 0 \<and> \<bar>mag (sub mouse (center env)) - layerRadiusOf cfg env layer\<bar> < 20
       else i < sides cfg \<and> \<not> isAutoGap cfg i
            \<and> dist_seg (distToSegment mouse
                  (layerVertices cfg env renderRotation (layerRadiusOf cfg env layer) ! i)
                  (layerVertices cfg env renderRotation (layerRadiusOf cfg env layer)
                     ! ((i + 1) mod sides cfg))) < 20))"

text \<open>
  For the proofs below: ball \<open>b\<close> exists and is not pinned, and \<open>frozen\<close> is the list of the
  pinned balls, in the order of the ball list.
\<close>

definition moving :: "nat \<Rightarrow> Ball list \<Rightarrow> State \<Rightarrow> bool" where
  "moving b frozen st \<longleftrightarrow>
     b < length (balls st) \<and> \<not> isPinned (balls st ! b) \<and> filter isPinned (balls st) = frozen"

subsection \<open>Concrete inputs\<close>

text \<open>The initial configuration of the application and a ball of the default size.\<close>

definition cfg0 :: GameConfig where
  "cfg0 = \<lparr>polygonSides = 6, isCircle = False, gapCount = 0, rotationSpeed = 0.005,
     gravity = 0.05, elasticity = 0.95, isReductionMode = False, isGodMode = False,
     enableBallCollisions = False, polygonLayers = 1, layerSpacing = 60, baseScale = 1,
     isDestructible = False, randomSpawn = False, micControlEnabled = False,
     micSensitivity = 5, recordWallCollisions = False\<rparr>"

definition ball0 :: Ball where
  "ball0 = \<lparr>ball_id = 0, pos = \<lparr>x = 0, y = 0\<rparr>, vel = \<lparr>x = 0, y = 1\<rparr>, radius = 6,
     color = Palette ''#00ffff'', trail = [], isPinned = False\<rparr>"

text \<open>A press of the main button at \<open>(0, 50)\<close>, and a paused scene in which wall \<open>0-4\<close> is
  hovered.\<close>

definition ev0 :: PointerEvent where
  "ev0 = \<lparr>button = 0, clientX = 0, clientY = 50\<rparr>"

definition stHover :: State where
  "stHover = \<lparr>balls = [ball0], rotation = 0, collisionCount = 0, manualGaps = {},
     dragState = None, mousePos = \<lparr>x = 0, y = 50\<rparr>, hoveredWall = Some (wallId 0 4),
     longPressTimer = False, longPressStartPos = None, canvasRect = Some \<lparr>x = 0, y = 0\<rparr>\<rparr>"

text \<open>
  Two balls of radius \<open>1\<close> whose centres are \<open>1\<close> apart, moving towards each other at the
  same speed along the line of their centres; the second one also pinned and at rest; a
  state around a list of balls.
\<close>

definition cfgBB :: GameConfig where
  "cfgBB = cfg0\<lparr>enableBallCollisions := True\<rparr>"

definition ballA :: Ball where
  "ballA = \<lparr>ball_id = 0, pos = \<lparr>x = 0, y = 0\<rparr>, vel = \<lparr>x = 1, y = 0\<rparr>, radius = 1,
     color = Palette ''#00ffff'', trail = [], isPinned = False\<rparr>"

definition ballB :: Ball where
  "ballB = \<lparr>ball_id = 1, pos = \<lparr>x = 1, y = 0\<rparr>, vel = \<lparr>x = - 1, y = 0\<rparr>, radius = 1,
     color = Palette ''#ff00ff'', trail = [], isPinned = False\<rparr>"

definition ballP :: Ball where
  "ballP = ballB\<lparr>vel := \<lparr>x = 0, y = 0\<rparr>, isPinned := True\<rparr>"

definition stOf :: "Ball list \<Rightarrow> State" where
  "stOf bs = \<lparr>balls = bs, rotation = 0, collisionCount = 0, manualGaps = {},
     dragState = None, mousePos = \<lparr>x = 0, y = 0\<rparr>, hoveredWall = None,
     longPressTimer = False, longPressStartPos = None, canvasRect = Some \<lparr>x = 0, y = 0\<rparr>\<rparr>"

text \<open>
  A viewport of 400 by 400 pixels, a circular arena, a ball about to hit the ring of
  radius \<open>180\<close>, a ball about to hit the first side of a square, and an arena of two
  rings, of radius \<open>180\<close> and \<open>150\<close>, in god mode, with the pointer at a given place.
\<close>

definition env0 :: Viewport where
  "env0 = \<lparr>width = 400, height = 400\<rparr>"

definition cfgCircle :: GameConfig where
  "cfgCircle = cfg0\<lparr>isCircle := True\<rparr>"

definition ballW :: Ball where
  "ballW = \<lparr>ball_id = 0, pos = \<lparr>x = 378, y = 200\<rparr>, vel = \<lparr>x = 1, y = 0\<rparr>, radius = 6,
     color = Palette ''#00ffff'', trail = [], isPinned = False\<rparr>"

definition ballS :: Ball where
  "ballS = \<lparr>ball_id = 0, pos = \<lparr>x = 5, y = 2\<rparr>, vel = \<lparr>x = 0, y = - 1\<rparr>, radius = 6,
     color = Palette ''#00ffff'', trail = [], isPinned = False\<rparr>"

definition square :: "Vector2 list" where
  "square = [\<lparr>x = 0, y = 0\<rparr>, \<lparr>x = 10, y = 0\<rparr>, \<lparr>x = 10, y = 10\<rparr>, \<lparr>x = 0, y = 10\<rparr>]"

definition cfgRings :: GameConfig where
  "cfgRings = cfg0\<lparr>isCircle := True, isGodMode := True, polygonLayers := 2, layerSpacing := 30\<rparr>"

definition stMouse :: "Vector2 \<Rightarrow> State" where
  "stMouse m = (stOf [])\<lparr>mousePos := m\<rparr>"

text \<open>The default ball, pinned; a state in which its velocity handle is being dragged.\<close>

definition pinned0 :: Ball where
  "pinned0 = ball0\<lparr>isPinned := True, vel := \<lparr>x = 0, y = 0\<rparr>\<rparr>"

definition stDrag :: State where
  "stDrag = (stOf [pinned0])\<lparr>dragState := Some (VELOCITY 0)\<rparr>"

section \<open>Properties\<close>

subsection \<open>Vectors\<close>

lemmas vec_defs = add_def sub_def mult_def dot_def distSq_def

lemma mag_nonneg: "0 \<le> mag v"
  by (simp add: mag_def)

lemma mag_zero_iff: "mag v = 0 \<longleftrightarrow> x v = 0 \<and> y v = 0"
  by (simp add: mag_def sum_squares_eq_zero_iff)

lemma mag_mult: "mag (mult v s) = mag v * \<bar>s\<bar>"
proof -
  have "x v * s * (x v * s) + y v * s * (y v * s) = (x v * x v + y v * y v) * (s * s)"
    by (simp add: algebra_simps)
  then show ?thesis
    by (simp add: mag_def mult_def real_sqrt_mult)
qed

lemma normalizeV_eq_mult: "mag v \<noteq> 0 \<Longrightarrow> normalizeV v = mult v (1 / mag v)"
  by (simp add: normalizeV_def mult_def Let_def)

lemma mag_normalizeV: "mag v \<noteq> 0 \<Longrightarrow> mag (normalizeV v) = 1"
  using mag_nonneg [of v] by (simp add: normalizeV_eq_mult mag_mult)

lemma normalizeV_zero_iff: "x (normalizeV v) = 0 \<and> y (normalizeV v) = 0 \<longleftrightarrow> mag v = 0"
proof (cases "mag v = 0")
  case True
  then show ?thesis by (simp add: normalizeV_def)
next
  case False
  then have "mag (normalizeV v) = 1" by (rule mag_normalizeV)
  then have "\<not> (x (normalizeV v) = 0 \<and> y (normalizeV v) = 0)"
    using mag_zero_iff [of "normalizeV v"] by simp
  with False show ?thesis by simp
qed

lemma dot_self_zero_iff: "dot (sub b a) (sub b a) = 0 \<longleftrightarrow> a = b"
  by (cases a, cases b) (auto simp add: dot_def sub_def sum_squares_eq_zero_iff)

lemma mag_axis_x: "mag \<lparr>x = a, y = 0\<rparr> = \<bar>a\<bar>"
  by (simp add: mag_def)

lemma mag_axis_y: "mag \<lparr>x = 0, y = a\<rparr> = \<bar>a\<bar>"
  by (simp add: mag_def)

lemma mag_perp: "mag \<lparr>x = - y v, y = x v\<rparr> = mag v"
  by (simp add: mag_def add.commute)

text \<open>
  C5. For a vector of non-zero magnitude, \<open>normalizeV\<close> returns a vector of magnitude \<open>1\<close>
  that, scaled by the (positive) magnitude, is the vector itself: the same direction. For
  the zero vector, the only one of magnitude \<open>0\<close>, it returns the zero vector: a fixed
  value, with no division.
\<close>

theorem normalize_unit_same_direction:
  "(mag v \<noteq> 0 \<longrightarrow>
      mag (normalizeV v) = 1 \<and> 0 < mag v \<and> mult (normalizeV v) (mag v) = v)
   \<and> (mag v = 0 \<longrightarrow> normalizeV v = \<lparr>x = 0, y = 0\<rparr>)
   \<and> (mag v = 0 \<longleftrightarrow> v = \<lparr>x = 0, y = 0\<rparr>)"
proof (intro conjI impI)
  assume nz: "mag v \<noteq> 0"
  show "mag (normalizeV v) = 1" using nz by (rule mag_normalizeV)
  show "0 < mag v" using nz mag_nonneg [of v] by simp
  show "mult (normalizeV v) (mag v) = v"
    using nz by (simp add: normalizeV_def mult_def Let_def)
next
  assume "mag v = 0"
  then show "normalizeV v = \<lparr>x = 0, y = 0\<rparr>" by (simp add: normalizeV_def)
next
  show "mag v = 0 \<longleftrightarrow> v = \<lparr>x = 0, y = 0\<rparr>"
    by (cases v) (simp add: mag_zero_iff)
qed

theorem normalize_unit_same_direction_witness:
  "mag \<lparr>x = 3, y = 0\<rparr> \<noteq> 0 \<and> mag (normalizeV \<lparr>x = 3, y = 0\<rparr>) = 1
   \<and> normalizeV \<lparr>x = 0, y = 0\<rparr> = \<lparr>x = 0, y = 0\<rparr>"
proof -
  have nz: "mag \<lparr>x = 3, y = 0\<rparr> \<noteq> 0" by (simp add: mag_def)
  have z: "mag \<lparr>x = 0, y = 0\<rparr> = 0" by (simp add: mag_def)
  show ?thesis
    using nz z normalize_unit_same_direction [of "\<lparr>x = 3, y = 0\<rparr>"]
      normalize_unit_same_direction [of "\<lparr>x = 0, y = 0\<rparr>"]
    by simp
qed

text \<open>
  C10. \<open>distToSegment\<close> is a total function. For \<open>a = b\<close> it returns the distance from \<open>p\<close>
  to \<open>a\<close>, the closest point \<open>a\<close> and the normal \<open>(0, -1)\<close>. Otherwise the divisor
  \<open>abLenSq\<close> is not zero, the closest point is \<open>a + t * (b - a)\<close> for the projection
  parameter \<open>t\<close> clamped to \<open>[0, 1]\<close>, and the normal is a unit vector, the normalised
  perpendicular of the segment when \<open>p\<close> is its own closest point. In both cases the
  distance is that from \<open>p\<close> to the closest point, hence not negative, and the normal is
  not the zero vector.
\<close>

theorem distToSegment_total:
  "(a = b \<longrightarrow>
      distToSegment p a b = \<lparr>dist_seg = distV p a, closest = a, normal = \<lparr>x = 0, y = - 1\<rparr>\<rparr>)
   \<and> (a \<noteq> b \<longrightarrow>
        dot (sub b a) (sub b a) \<noteq> 0
        \<and> (\<exists>t. 0 \<le> t \<and> t \<le> 1
               \<and> t = max 0 (min 1 (dot (sub p a) (sub b a) / dot (sub b a) (sub b a)))
               \<and> closest (distToSegment p a b) = add a (mult (sub b a) t))
        \<and> mag (normal (distToSegment p a b)) = 1
        \<and> (closest (distToSegment p a b) = p \<longrightarrow>
             normal (distToSegment p a b) = normalizeV \<lparr>x = - y (sub b a), y = x (sub b a)\<rparr>))
   \<and> 0 \<le> dist_seg (distToSegment p a b)
   \<and> dist_seg (distToSegment p a b) = distV p (closest (distToSegment p a b))
   \<and> normal (distToSegment p a b) \<noteq> \<lparr>x = 0, y = 0\<rparr>"
proof -
  let ?r = "distToSegment p a b"
  have deg: "?r = \<lparr>dist_seg = distV p a, closest = a, normal = \<lparr>x = 0, y = - 1\<rparr>\<rparr>" if "a = b"
    using that by (simp add: distToSegment_def dot_self_zero_iff)
  have nz: "dot (sub b a) (sub b a) \<noteq> 0" if "a \<noteq> b"
    using that by (simp add: dot_self_zero_iff)
  define t where "t = max 0 (min 1 (dot (sub p a) (sub b a) / dot (sub b a) (sub b a)))"
  have t01: "0 \<le> t" "t \<le> 1" by (simp_all add: t_def)
  have cl: "closest ?r = add a (mult (sub b a) t)" if "a \<noteq> b"
    using nz [OF that] by (simp add: distToSegment_def Let_def t_def)
  have ds: "dist_seg ?r = distV p (closest ?r)"
    by (simp add: distToSegment_def Let_def)
  have perp_nz: "mag \<lparr>x = - y (sub b a), y = x (sub b a)\<rparr> \<noteq> 0" if "a \<noteq> b"
  proof -
    have "\<not> (x (sub b a) = 0 \<and> y (sub b a) = 0)"
      using that by (cases a, cases b) (auto simp add: sub_def)
    then show ?thesis by (simp add: mag_perp mag_zero_iff)
  qed
  have nrm: "normal ?r =
      (if mag (sub p (closest ?r)) = 0
       then normalizeV \<lparr>x = - y (sub b a), y = x (sub b a)\<rparr>
       else normalizeV (sub p (closest ?r)))" if "a \<noteq> b"
    using nz [OF that] normalizeV_zero_iff [of "sub p (add a (mult (sub b a) t))"]
    by (simp add: distToSegment_def Let_def t_def [symmetric])
  have unit: "mag (normal ?r) = 1" if "a \<noteq> b"
    using nrm [OF that] perp_nz [OF that] by (simp add: mag_normalizeV)
  have online: "normal ?r = normalizeV \<lparr>x = - y (sub b a), y = x (sub b a)\<rparr>"
    if "a \<noteq> b" "closest ?r = p"
  proof -
    have "mag (sub p (closest ?r)) = 0" using that(2) by (simp add: mag_zero_iff sub_def)
    then show ?thesis using nrm [OF that(1)] by simp
  qed
  have nonzero: "normal ?r \<noteq> \<lparr>x = 0, y = 0\<rparr>"
  proof (cases "a = b")
    case True
    then show ?thesis using deg by simp
  next
    case False
    show ?thesis
    proof
      assume "normal ?r = \<lparr>x = 0, y = 0\<rparr>"
      then have "mag (normal ?r) = 0" by (simp add: mag_def)
      with unit [OF False] show False by simp
    qed
  qed
  have nonneg: "0 \<le> dist_seg ?r" using ds by (simp add: distV_def mag_nonneg)
  from deg nz cl unit online nonzero nonneg ds t01 show ?thesis
    unfolding t_def by blast
qed

theorem distToSegment_total_witness:
  "distToSegment \<lparr>x = 1, y = 1\<rparr> \<lparr>x = 0, y = 0\<rparr> \<lparr>x = 0, y = 0\<rparr>
     = \<lparr>dist_seg = distV \<lparr>x = 1, y = 1\<rparr> \<lparr>x = 0, y = 0\<rparr>, closest = \<lparr>x = 0, y = 0\<rparr>,
        normal = \<lparr>x = 0, y = - 1\<rparr>\<rparr>
   \<and> (\<lparr>x = 0, y = 0\<rparr> :: Vector2) \<noteq> \<lparr>x = 2, y = 0\<rparr>
   \<and> mag (normal (distToSegment \<lparr>x = 1, y = 0\<rparr> \<lparr>x = 0, y = 0\<rparr> \<lparr>x = 2, y = 0\<rparr>)) = 1
   \<and> closest (distToSegment \<lparr>x = 1, y = 0\<rparr> \<lparr>x = 0, y = 0\<rparr> \<lparr>x = 2, y = 0\<rparr>) = \<lparr>x = 1, y = 0\<rparr>
   \<and> normal (distToSegment \<lparr>x = 1, y = 0\<rparr> \<lparr>x = 0, y = 0\<rparr> \<lparr>x = 2, y = 0\<rparr>)
       = normalizeV \<lparr>x = - y (sub \<lparr>x = 2, y = 0\<rparr> \<lparr>x = 0, y = 0\<rparr>),
                    y = x (sub \<lparr>x = 2, y = 0\<rparr> \<lparr>x = 0, y = 0\<rparr>)\<rparr>"
proof -
  have ne: "(\<lparr>x = 0, y = 0\<rparr> :: Vector2) \<noteq> \<lparr>x = 2, y = 0\<rparr>" by simp
  have on: "closest (distToSegment \<lparr>x = 1, y = 0\<rparr> \<lparr>x = 0, y = 0\<rparr> \<lparr>x = 2, y = 0\<rparr>)
              = \<lparr>x = 1, y = 0\<rparr>"
    by (simp add: distToSegment_def Let_def sub_def dot_def add_def mult_def)
  note deg = distToSegment_total [of "\<lparr>x = 0, y = 0\<rparr>" "\<lparr>x = 0, y = 0\<rparr>" "\<lparr>x = 1, y = 1\<rparr>"]
  note seg = distToSegment_total [of "\<lparr>x = 0, y = 0\<rparr>" "\<lparr>x = 2, y = 0\<rparr>" "\<lparr>x = 1, y = 0\<rparr>"]
  from deg ne on seg show ?thesis by blast
qed

subsection \<open>The integrator\<close>

lemma distV_add_left: "distV (add p q) p = mag q"
  by (simp add: distV_def sub_def add_def mag_def)

lemma clamp_speed:
  assumes "0 \<le> M"
  shows "mag (if mag v > M then mult v (M / mag v) else v) \<le> M"
proof (cases "mag v > M")
  case True
  with assms have pos: "0 < mag v" by simp
  have "mag (mult v (M / mag v)) = mag v * (M / mag v)"
    using assms pos by (simp add: mag_mult)
  also have "\<dots> = M" using pos by simp
  finally show ?thesis using True by simp
next
  case False
  then show ?thesis by simp
qed

text \<open>
  C2. After the integration phase (gravity, damping, clamp, position update) of a ball
  whose radius is not negative, the speed is at most \<open>radius * 0.8 * SUB_STEPS\<close>, and the
  displacement of the sub-step, which is the velocity divided by \<open>SUB_STEPS\<close>, is at most
  \<open>0.8\<close> of the radius.
\<close>

theorem integrate_speed_clamped:
  assumes "0 \<le> radius ball"
  shows "mag (vel (integrate cfg ball)) \<le> radius ball * 0.8 * real SUB_STEPS
         \<and> distV (pos (integrate cfg ball)) (pos ball) \<le> radius ball * 0.8
         \<and> pos (integrate cfg ball)
             = add (pos ball) (mult (vel (integrate cfg ball)) (1 / real SUB_STEPS))"
proof -
  define M where "M = radius ball * 0.8 * real SUB_STEPS"
  define v2 where
    "v2 = mult ((vel ball)\<lparr>y := y (vel ball) + gravity cfg / real SUB_STEPS\<rparr>)
            (0.9995 powr (1 / real SUB_STEPS))"
  define v3 where "v3 = (if mag v2 > M then mult v2 (M / mag v2) else v2)"
  have M0: "0 \<le> M" using assms by (simp add: M_def)
  have v: "vel (integrate cfg ball) = v3"
    by (simp add: integrate_def Let_def v3_def v2_def M_def)
  have p: "pos (integrate cfg ball) = add (pos ball) (mult v3 (1 / real SUB_STEPS))"
    by (simp add: integrate_def Let_def v3_def v2_def M_def)
  have b: "mag v3 \<le> M" unfolding v3_def using M0 by (rule clamp_speed)
  have "distV (pos (integrate cfg ball)) (pos ball) = mag v3 * (1 / real SUB_STEPS)"
    by (simp add: p distV_add_left mag_mult SUB_STEPS_def)
  also have "\<dots> \<le> M * (1 / real SUB_STEPS)"
    using b by (simp add: SUB_STEPS_def)
  also have "\<dots> = radius ball * 0.8" by (simp add: M_def SUB_STEPS_def)
  finally have d: "distV (pos (integrate cfg ball)) (pos ball) \<le> radius ball * 0.8" .
  from b d p v show ?thesis by (simp add: M_def)
qed

theorem integrate_speed_clamped_witness:
  "0 \<le> radius ball0 \<and> mag (vel (integrate cfg0 ball0)) \<le> 48"
proof -
  have r: "0 \<le> radius ball0" by (simp add: ball0_def)
  show ?thesis
    using r integrate_speed_clamped [OF r, of cfg0] by (simp add: ball0_def SUB_STEPS_def)
qed

subsection \<open>Toggling a wall\<close>

lemma handlePointerDown_wall:
  assumes "isGodMode cfg" "paused" "button e = 0" "canvasRect st = Some rect"
    and "hoveredWall st = Some w"
    and "noHandleHit (mouseOf e rect) (balls st)"
    and "noBallHit (mouseOf e rect) (balls st)"
  shows "handlePointerDown cfg paused e st
           = st\<lparr>mousePos := mouseOf e rect, longPressStartPos := Some (mouseOf e rect),
                longPressTimer := True, manualGaps := toggleWall w (manualGaps st)\<rparr>"
proof -
  have f1: "find (\<lambda>ball. distV (mouseOf e rect) (add (pos ball) (mult (vel ball) 10)) < 10)
              (balls st) = None"
    using assms(6) by (simp add: find_None_iff noHandleHit_def)
  have f2: "find (\<lambda>ball. distV (mouseOf e rect) (pos ball) < radius ball + 5) (balls st) = None"
    using assms(7) by (simp add: find_None_iff noBallHit_def)
  show ?thesis
    using assms(1-5) f1 f2 by (simp add: handlePointerDown_def Let_def)
qed

lemma toggleWall_twice: "toggleWall w (toggleWall w gaps) = gaps"
  by (auto simp add: toggleWall_def)

text \<open>
  C3. A press with god mode on, the simulation paused, the main button, wall \<open>w\<close> hovered
  and neither a velocity handle nor a ball under the pointer toggles \<open>w\<close> in the manual
  gaps: it removes \<open>w\<close> if present and adds it if absent. A second such press gives back
  the original set (and the balls are untouched by both).
\<close>

theorem wall_toggle_twice_restores:
  assumes "isGodMode cfg" "paused" "button e = 0" "canvasRect st = Some rect"
    and "hoveredWall st = Some w"
    and "noHandleHit (mouseOf e rect) (balls st)"
    and "noBallHit (mouseOf e rect) (balls st)"
  shows "manualGaps (handlePointerDown cfg paused e st)
           = (if w \<in> manualGaps st then manualGaps st - {w} else insert w (manualGaps st))
         \<and> manualGaps (handlePointerDown cfg paused e (handlePointerDown cfg paused e st))
             = manualGaps st
         \<and> balls (handlePointerDown cfg paused e (handlePointerDown cfg paused e st)) = balls st"
proof -
  let ?st1 = "handlePointerDown cfg paused e st"
  have one: "?st1 = st\<lparr>mousePos := mouseOf e rect, longPressStartPos := Some (mouseOf e rect),
                longPressTimer := True, manualGaps := toggleWall w (manualGaps st)\<rparr>"
    using assms by (rule handlePointerDown_wall)
  have two: "handlePointerDown cfg paused e ?st1
      = ?st1\<lparr>mousePos := mouseOf e rect, longPressStartPos := Some (mouseOf e rect),
                longPressTimer := True, manualGaps := toggleWall w (manualGaps ?st1)\<rparr>"
    by (rule handlePointerDown_wall [OF assms(1-3)]) (simp_all add: one assms(4-7))
  have g1: "manualGaps ?st1 = toggleWall w (manualGaps st)" by (simp add: one)
  have g2: "manualGaps (handlePointerDown cfg paused e ?st1) = manualGaps st"
    by (subst two) (simp add: g1 toggleWall_twice)
  have b2: "balls (handlePointerDown cfg paused e ?st1) = balls st"
    by (subst two) (simp add: one)
  from g1 g2 b2 show ?thesis by (simp add: toggleWall_def)
qed

theorem wall_toggle_twice_restores_witness:
  "manualGaps (handlePointerDown (cfg0\<lparr>isGodMode := True\<rparr>) True ev0 stHover) = {wallId 0 4}
   \<and> manualGaps (handlePointerDown (cfg0\<lparr>isGodMode := True\<rparr>) True ev0
        (handlePointerDown (cfg0\<lparr>isGodMode := True\<rparr>) True ev0 stHover)) = {}"
proof -
  have mp: "mouseOf ev0 \<lparr>x = 0, y = 0\<rparr> = \<lparr>x = 0, y = 50\<rparr>"
    by (simp add: mouseOf_def ev0_def)
  have h: "noHandleHit \<lparr>x = 0, y = 50\<rparr> (balls stHover)"
    by (simp add: noHandleHit_def stHover_def ball0_def distV_def sub_def add_def mult_def
        mag_axis_y)
  have b: "noBallHit \<lparr>x = 0, y = 50\<rparr> (balls stHover)"
    by (simp add: noBallHit_def stHover_def ball0_def distV_def sub_def mag_axis_y)
  show ?thesis
    using h b wall_toggle_twice_restores [of "cfg0\<lparr>isGodMode := True\<rparr>" True ev0 stHover
      "\<lparr>x = 0, y = 0\<rparr>" "wallId 0 4"]
    by (simp add: mp) (simp add: stHover_def ev0_def)
qed

subsection \<open>Ball-ball collisions\<close>

lemma dot_mult_right: "dot v (mult w s) = dot v w * s"
  by (simp add: dot_def mult_def algebra_simps)

lemma distSq_dot: "distSq p q = dot (sub p q) (sub p q)"
  by (simp add: distSq_def dot_def sub_def Let_def)

lemma distSq_nonneg: "0 \<le> distSq p q"
  by (simp add: distSq_def Let_def)

lemma distSq_zero_iff: "distSq p q = 0 \<longleftrightarrow> p = q"
  by (cases p, cases q) (auto simp add: distSq_def Let_def sum_squares_eq_zero_iff)

lemma distSq_pos: "p \<noteq> q \<Longrightarrow> 0 < distSq p q"
  using distSq_nonneg [of p q] distSq_zero_iff [of p q] by simp

lemma approach_distinct: "dot v (sub p q) < 0 \<Longrightarrow> p \<noteq> q"
  by (auto simp add: dot_def sub_def)

lemma normal_sign:
  assumes "p \<noteq> q"
  shows "dot v (mult (sub p q) (1 / sqrt (distSq p q))) < 0 \<longleftrightarrow> dot v (sub p q) < 0"
proof -
  have "0 < sqrt (distSq p q)" using distSq_pos [OF assms] by simp
  then show ?thesis
    by (simp add: dot_mult_right divide_less_0_iff not_less [symmetric] less_imp_le)
qed

lemma collide_pinned:
  assumes "isPinned other"
    and "distSq (pos ball) (pos other) < (radius ball + radius other) * (radius ball + radius other)"
  shows "collide cfg elast ball other =
    (let n = mult (sub (pos ball) (pos other)) (1 / sqrt (distSq (pos ball) (pos other)));
         ball1 = ball\<lparr>pos := add (pos ball)
                   (mult n (radius ball + radius other - sqrt (distSq (pos ball) (pos other))))\<rparr>
     in if dot (vel ball) n < 0
        then (ball1\<lparr>vel := mult (sub (vel ball) (mult n (2 * dot (vel ball) n))) elast\<rparr>, other, 1)
        else (ball1, other, 0))"
  using assms by (simp add: collide_def Let_def)

lemma collide_dynamic:
  assumes "\<not> isPinned other" "enableBallCollisions cfg"
    and "distSq (pos ball) (pos other) < (radius ball + radius other) * (radius ball + radius other)"
  shows "collide cfg elast ball other =
    (let n = mult (sub (pos ball) (pos other)) (1 / sqrt (distSq (pos ball) (pos other)));
         push = mult n ((radius ball + radius other - sqrt (distSq (pos ball) (pos other))) * 0.5);
         ball1 = ball\<lparr>pos := add (pos ball) push\<rparr>;
         other1 = other\<lparr>pos := sub (pos other) push\<rparr>;
         sepVel = dot (sub (vel ball) (vel other)) n
     in if sepVel < 0
        then (ball1\<lparr>vel := mult (sub (vel ball) (mult n sepVel)) 0.99\<rparr>,
              other1\<lparr>vel := mult (add (vel other) (mult n sepVel)) 0.99\<rparr>, 1)
        else (ball1, other1, 0))"
  using assms by (simp add: collide_def Let_def)

lemma collide_skipped:
  "\<not> enableBallCollisions cfg \<Longrightarrow> \<not> isPinned other \<Longrightarrow>
     collide cfg elast ball other = (ball, other, 0)"
  by (simp add: collide_def)

lemma collide_apart:
  "\<not> distSq (pos ball) (pos other) < (radius ball + radius other) * (radius ball + radius other)
     \<Longrightarrow> collide cfg elast ball other = (ball, other, 0)"
  by (simp add: collide_def Let_def)

lemma collide_count_le_one: "snd (snd (collide cfg elast ball other)) \<le> 1"
  by (simp add: collide_def Let_def)

lemma collidePair_count:
  "b \<noteq> j \<Longrightarrow> collisionCount (collidePair cfg elast b j st)
     = collisionCount st + snd (snd (collide cfg elast (balls st ! b) (balls st ! j)))"
  by (simp add: collidePair_def split: prod.splits)

text \<open>
  C1 (amended). In the body of the ball-ball loop, for two overlapping balls: a collision
  with a pinned ball that the moving ball approaches, and a collision of two unpinned
  balls that approach each other (ball collisions enabled), each increment the collision
  counter by exactly one; the counter never decreases. Approach is stated with the vector
  between the centres, which differs from the contact normal by the positive factor
  \<open>1 / distance\<close>.
\<close>

theorem collision_counted_once:
  assumes "b \<noteq> j"
    and "distSq (pos (balls st ! b)) (pos (balls st ! j))
           < (radius (balls st ! b) + radius (balls st ! j))
             * (radius (balls st ! b) + radius (balls st ! j))"
  shows "(isPinned (balls st ! j)
            \<and> dot (vel (balls st ! b)) (sub (pos (balls st ! b)) (pos (balls st ! j))) < 0
          \<longrightarrow> collisionCount (collidePair cfg elast b j st) = collisionCount st + 1)
       \<and> (\<not> isPinned (balls st ! j) \<and> enableBallCollisions cfg
            \<and> dot (sub (vel (balls st ! b)) (vel (balls st ! j)))
                  (sub (pos (balls st ! b)) (pos (balls st ! j))) < 0
          \<longrightarrow> collisionCount (collidePair cfg elast b j st) = collisionCount st + 1)
       \<and> collisionCount st \<le> collisionCount (collidePair cfg elast b j st)"
proof (intro conjI impI)
  let ?ball = "balls st ! b" and ?other = "balls st ! j"
  {
    assume a: "isPinned ?other \<and> dot (vel ?ball) (sub (pos ?ball) (pos ?other)) < 0"
    then have ne: "pos ?ball \<noteq> pos ?other" by (blast dest: approach_distinct)
    have "snd (snd (collide cfg elast ?ball ?other)) = 1"
      using a normal_sign [OF ne, of "vel ?ball"]
      by (simp add: collide_pinned [OF _ assms(2)] Let_def)
    then show "collisionCount (collidePair cfg elast b j st) = collisionCount st + 1"
      using assms(1) by (simp add: collidePair_count)
  }
  {
    assume a: "\<not> isPinned ?other \<and> enableBallCollisions cfg
       \<and> dot (sub (vel ?ball) (vel ?other)) (sub (pos ?ball) (pos ?other)) < 0"
    then have ne: "pos ?ball \<noteq> pos ?other" by (blast dest: approach_distinct)
    have "snd (snd (collide cfg elast ?ball ?other)) = 1"
      using a normal_sign [OF ne, of "sub (vel ?ball) (vel ?other)"]
      by (simp add: collide_dynamic [OF _ _ assms(2)] Let_def)
    then show "collisionCount (collidePair cfg elast b j st) = collisionCount st + 1"
      using assms(1) by (simp add: collidePair_count)
  }
  show "collisionCount st \<le> collisionCount (collidePair cfg elast b j st)"
    using assms(1) by (simp add: collidePair_count)
qed


text \<open>
  C1, as stated, fails: two unpinned, overlapping balls that approach each other; the
  collision counter goes from \<open>0\<close> to \<open>1\<close>.
\<close>

theorem dynamic_collision_counted:
  "\<not> isPinned (balls (stOf [ballA, ballB]) ! 0) \<and> \<not> isPinned (balls (stOf [ballA, ballB]) ! 1)
   \<and> distSq (pos ballA) (pos ballB) < (radius ballA + radius ballB) * (radius ballA + radius ballB)
   \<and> dot (sub (vel ballA) (vel ballB))
        (mult (sub (pos ballA) (pos ballB)) (1 / sqrt (distSq (pos ballA) (pos ballB)))) < 0
   \<and> collisionCount (stOf [ballA, ballB]) = 0
   \<and> collisionCount (collidePair cfgBB 1 0 1 (stOf [ballA, ballB])) = 1"
  by (simp add: collidePair_def collide_def stOf_def ballA_def ballB_def cfgBB_def cfg0_def
      vec_defs Let_def)

theorem collision_counted_once_witness:
  "collisionCount (collidePair cfg0 1 0 1 (stOf [ballA, ballP])) = 1
   \<and> collisionCount (collidePair cfgBB 1 0 1 (stOf [ballA, ballB])) = 1"
proof -
  have "collisionCount (collidePair cfg0 1 0 1 (stOf [ballA, ballP])) = 1"
    using collision_counted_once [of 0 1 "stOf [ballA, ballP]" cfg0 1]
    by (simp add: stOf_def ballA_def ballB_def ballP_def vec_defs)
  moreover have "collisionCount (collidePair cfgBB 1 0 1 (stOf [ballA, ballB])) = 1"
    using collision_counted_once [of 0 1 "stOf [ballA, ballB]" cfgBB 1]
    by (simp add: stOf_def ballA_def ballB_def cfgBB_def cfg0_def vec_defs)
  ultimately show ?thesis by simp
qed


lemma unit_normal:
  assumes "p \<noteq> q"
  shows "dot (mult (sub p q) (1 / sqrt (distSq p q))) (mult (sub p q) (1 / sqrt (distSq p q))) = 1"
proof -
  let ?d = "sqrt (distSq p q)"
  have d: "0 < ?d" using distSq_pos [OF assms] by simp
  have "dot (mult (sub p q) (1 / ?d)) (mult (sub p q) (1 / ?d))
          = dot (sub p q) (sub p q) * ((1 / ?d) * (1 / ?d))"
    by (simp add: dot_def mult_def algebra_simps)
  also have "\<dots> = distSq p q * ((1 / ?d) * (1 / ?d))"
    by (simp only: distSq_dot)
  also have "\<dots> = (?d * ?d) * ((1 / ?d) * (1 / ?d))"
    using distSq_nonneg [of p q] by simp
  also have "\<dots> = 1" using d by simp
  finally show ?thesis .
qed

lemma distSq_scaled: "distSq (mult n s) \<lparr>x = 0, y = 0\<rparr> = dot n n * (s * s)"
  by (simp add: vec_defs Let_def algebra_simps)

lemma distSq_translate:
  "distSq p q = distSq (sub p q) \<lparr>x = 0, y = 0\<rparr>"
  by (simp add: vec_defs Let_def)

lemma push_half_identity:
  fixes d :: real
  assumes "d \<noteq> 0"
  shows "sub (add p (mult (mult (sub p q) (1 / d)) ((m - d) / 2)))
             (sub q (mult (mult (sub p q) (1 / d)) ((m - d) / 2)))
         = mult (mult (sub p q) (1 / d)) m"
  using assms by (simp add: add_def sub_def mult_def field_simps)

lemma push_full_identity:
  fixes d :: real
  assumes "d \<noteq> 0"
  shows "sub (add p (mult (mult (sub p q) (1 / d)) (m - d))) q = mult (mult (sub p q) (1 / d)) m"
  using assms by (simp add: add_def sub_def mult_def field_simps)

lemma sqrt_distSq_nonzero: "p \<noteq> q \<Longrightarrow> sqrt (distSq p q) \<noteq> 0"
  using distSq_pos [of p q] by simp

lemma pushed_apart:
  assumes "p \<noteq> q"
  shows "distSq (add p (mult (mult (sub p q) (1 / sqrt (distSq p q))) ((m - sqrt (distSq p q)) / 2)))
                (sub q (mult (mult (sub p q) (1 / sqrt (distSq p q))) ((m - sqrt (distSq p q)) / 2)))
         = m * m"
  by (subst distSq_translate)
    (simp only: push_half_identity [OF sqrt_distSq_nonzero [OF assms]] distSq_scaled
      unit_normal [OF assms] mult_1)

lemma pushed_out:
  assumes "p \<noteq> q"
  shows "distSq (add p (mult (mult (sub p q) (1 / sqrt (distSq p q))) (m - sqrt (distSq p q)))) q
         = m * m"
  by (subst distSq_translate)
    (simp only: push_full_identity [OF sqrt_distSq_nonzero [OF assms]] distSq_scaled
      unit_normal [OF assms] mult_1)

lemma head_on_sep:
  "dot (sub (mult (sub q p) k) (mult (mult (sub q p) k) (- 1))) (sub p q) = - (2 * k * distSq p q)"
  by (simp add: vec_defs Let_def algebra_simps)

lemma mult_mult: "mult (mult v s) t = mult v (s * t)"
  by (simp add: mult_def algebra_simps)

lemma head_on_ball:
  "mult (sub (mult (sub q p) k) (mult (sub p q) (- (2 * k)))) c = mult (mult (mult (sub q p) k) (- 1)) c"
  by (simp add: sub_def mult_def algebra_simps)

lemma head_on_other:
  "mult (add (mult (mult (sub q p) k) (- 1)) (mult (sub p q) (- (2 * k)))) c = mult (mult (sub q p) k) c"
  by (simp add: add_def sub_def mult_def algebra_simps)

text \<open>
  C6 (amended). Two overlapping unpinned balls with distinct centres, ball collisions
  enabled, the first moving towards the second along the line of the centres and the
  second with the opposite velocity: after \<open>collide\<close> each ball has \<open>0.99\<close> times the
  initial velocity of the other, the centres are exactly the sum of the radii apart (no
  overlap is left), and the collision is counted once.
\<close>

theorem head_on_exchange_damped:
  assumes en: "enableBallCollisions cfg"
    and np: "\<not> isPinned ball" "\<not> isPinned other"
    and ov: "distSq (pos ball) (pos other) < (radius ball + radius other) * (radius ball + radius other)"
    and ne: "pos ball \<noteq> pos other"
    and v1: "vel ball = mult (sub (pos other) (pos ball)) k" and k: "0 < k"
    and v2: "vel other = mult (vel ball) (- 1)"
  shows "vel (fst (collide cfg elast ball other)) = mult (vel other) 0.99
       \<and> vel (fst (snd (collide cfg elast ball other))) = mult (vel ball) 0.99
       \<and> distSq (pos (fst (collide cfg elast ball other)))
                 (pos (fst (snd (collide cfg elast ball other))))
           = (radius ball + radius other) * (radius ball + radius other)
       \<and> snd (snd (collide cfg elast ball other)) = 1"
proof -
  let ?p = "pos ball" and ?q = "pos other"
  let ?d = "sqrt (distSq ?p ?q)"
  let ?n = "mult (sub ?p ?q) (1 / ?d)"
  let ?sep = "dot (sub (vel ball) (vel other)) ?n"
  have D: "0 < distSq ?p ?q" using ne by (rule distSq_pos)
  then have d: "0 < ?d" by simp
  have dd: "?d * ?d = distSq ?p ?q" using D by simp
  have sep: "?sep = - (2 * k * distSq ?p ?q) * (1 / ?d)"
    by (simp only: v1 v2 dot_mult_right head_on_sep)
  have "distSq ?p ?q * (1 / ?d) = ?d"
    using d dd by (simp add: field_simps)
  then have sep': "?sep = - (2 * k * ?d)" using sep by (simp add: algebra_simps)
  have neg: "?sep < 0" using k d by (simp add: sep')
  have "(1 / ?d) * ?sep = - (2 * k)" using d by (simp add: sep')
  then have imp: "mult ?n ?sep = mult (sub ?p ?q) (- (2 * k))"
    by (simp only: mult_mult)
  have c: "collide cfg elast ball other =
      (ball\<lparr>pos := add ?p (mult ?n ((radius ball + radius other - ?d) * 0.5)),
            vel := mult (sub (vel ball) (mult ?n ?sep)) 0.99\<rparr>,
       other\<lparr>pos := sub ?q (mult ?n ((radius ball + radius other - ?d) * 0.5)),
             vel := mult (add (vel other) (mult ?n ?sep)) 0.99\<rparr>, 1)"
    using neg by (simp add: collide_dynamic [OF np(2) en ov] Let_def)
  have vb: "vel (fst (collide cfg elast ball other)) = mult (vel other) 0.99"
    by (simp add: c imp) (simp only: v2 v1 head_on_ball)
  have vo: "vel (fst (snd (collide cfg elast ball other))) = mult (vel ball) 0.99"
    by (simp add: c imp) (simp only: v2 v1 head_on_other)
  have ps: "distSq (pos (fst (collide cfg elast ball other)))
                 (pos (fst (snd (collide cfg elast ball other))))
           = (radius ball + radius other) * (radius ball + radius other)"
    by (simp add: c pushed_apart [OF ne])
  from vb vo ps c show ?thesis by simp
qed

text \<open>
  C6, as stated, fails: the velocities are not exchanged; the first ball ends with
  \<open>(-0.99, 0)\<close>, the second began with \<open>(-1, 0)\<close>.
\<close>

theorem head_on_not_exchanged:
  "enableBallCollisions cfgBB \<and> \<not> isPinned ballA \<and> \<not> isPinned ballB
   \<and> distSq (pos ballA) (pos ballB) < (radius ballA + radius ballB) * (radius ballA + radius ballB)
   \<and> vel ballB = mult (vel ballA) (- 1)
   \<and> vel ballA = mult (sub (pos ballB) (pos ballA)) 1
   \<and> vel (fst (collide cfgBB 1 ballA ballB)) = \<lparr>x = - (99 / 100), y = 0\<rparr>
   \<and> vel (fst (collide cfgBB 1 ballA ballB)) \<noteq> vel ballB
   \<and> vel (fst (snd (collide cfgBB 1 ballA ballB))) \<noteq> vel ballA"
  by (simp add: collide_def ballA_def ballB_def cfgBB_def cfg0_def vec_defs Let_def)

theorem head_on_exchange_damped_witness:
  "vel (fst (collide cfgBB 1 ballA ballB)) = mult (vel ballB) 0.99
   \<and> distSq (pos (fst (collide cfgBB 1 ballA ballB))) (pos (fst (snd (collide cfgBB 1 ballA ballB))))
       = 4"
  using head_on_exchange_damped [of cfgBB ballA ballB 1 1]
  by (simp add: ballA_def ballB_def cfgBB_def cfg0_def vec_defs)

lemma collide_pinned_other:
  "isPinned other \<Longrightarrow> fst (snd (collide cfg elast ball other)) = other"
  by (simp add: collide_def Let_def)

lemma collide_keeps_pin:
  "isPinned (fst (collide cfg elast ball other)) = isPinned ball"
  "isPinned (fst (snd (collide cfg elast ball other))) = isPinned other"
  by (simp_all add: collide_def Let_def)

lemma collidePair_noop:
  assumes "j = b \<or> (\<not> enableBallCollisions cfg \<and> \<not> isPinned (balls st ! j))"
  shows "collidePair cfg elast b j st = st"
  using assms by (auto simp add: collidePair_def collide_skipped)

lemma fold_noop:
  "(\<And>k. k \<in> set ks \<Longrightarrow> f k s = s) \<Longrightarrow> fold f ks s = s"
  by (induction ks) simp_all

lemma list_update_other_id: "j \<noteq> b \<Longrightarrow> xs[b := v, j := xs ! j] = xs[b := v]"
  by (metis list_update_id nth_list_update_neq)

lemma collidePair_pinned:
  assumes "j \<noteq> b" "isPinned (balls st ! j)"
  shows "collidePair cfg elast b j st
    = st\<lparr>balls := (balls st)[b := fst (collide cfg elast (balls st ! b) (balls st ! j))],
         collisionCount := collisionCount st
            + snd (snd (collide cfg elast (balls st ! b) (balls st ! j)))\<rparr>"
proof -
  obtain ball' other' k where c: "collide cfg elast (balls st ! b) (balls st ! j) = (ball', other', k)"
    by (cases "collide cfg elast (balls st ! b) (balls st ! j)") auto
  have "other' = balls st ! j" using collide_pinned_other [OF assms(2), of cfg elast "balls st ! b"] c
    by simp
  then show ?thesis using assms(1) c by (simp add: collidePair_def list_update_other_id)
qed

lemma ballBallPass_single_pinned:
  assumes off: "\<not> enableBallCollisions cfg" and ev: "step mod 2 = 0"
    and b: "b < length (balls st)" and j: "j < length (balls st)" "j \<noteq> b"
    and pj: "isPinned (balls st ! j)"
    and only: "\<forall>k < length (balls st). k \<noteq> j \<longrightarrow> \<not> isPinned (balls st ! k)"
  shows "ballBallPass cfg elast step b st = collidePair cfg elast b j st"
proof -
  let ?n = "length (balls st)"
  let ?f = "collidePair cfg elast b"
  let ?st' = "?f j st"
  have ex: "list_ex isPinned (balls st)"
    using j(1) pj nth_mem [of j "balls st"] by (auto simp add: list_ex_iff)
  have split: "[0..<?n] = [0..<j] @ j # [Suc j..<?n]"
    using j(1) by (metis le0 less_imp_le_nat upt_add_eq_append upt_conv_Cons le_add_diff_inverse plus_nat.add_0)
  have first: "fold ?f [0..<j] st = st"
  proof (rule fold_noop)
    fix k assume "k \<in> set [0..<j]"
    then have "k < ?n" "k \<noteq> j" using j(1) by auto
    then show "?f k st = st" using only off by (simp add: collidePair_noop)
  qed
  have st': "?st' = st\<lparr>balls := (balls st)[b := fst (collide cfg elast (balls st ! b) (balls st ! j))],
         collisionCount := collisionCount st
            + snd (snd (collide cfg elast (balls st ! b) (balls st ! j)))\<rparr>"
    using j(2) pj by (rule collidePair_pinned)
  have len: "length (balls ?st') = ?n" by (simp add: st')
  have pins: "isPinned (balls ?st' ! k) = isPinned (balls st ! k)" if "k < ?n" for k
    using that b by (cases "k = b") (simp_all add: st' collide_keeps_pin)
  have rest: "fold ?f [Suc j..<?n] ?st' = ?st'"
  proof (rule fold_noop)
    fix k assume "k \<in> set [Suc j..<?n]"
    then have k: "k < ?n" "k \<noteq> j" by auto
    then have "\<not> isPinned (balls ?st' ! k)" using only pins by simp
    then show "?f k ?st' = ?st'" using off by (simp add: collidePair_noop)
  qed
  have "ballBallPass cfg elast step b st = fold ?f [0..<?n] st"
    using ex ev by (simp add: ballBallPass_def)
  also have "\<dots> = ?st'" by (subst split) (simp add: first rest)
  finally show ?thesis .
qed

lemma collidePair_pins_off:
  assumes "\<not> enableBallCollisions cfg" "b < length (balls st)"
  shows "length (balls (collidePair cfg elast b j st)) = length (balls st)
         \<and> (\<forall>k. isPinned (balls (collidePair cfg elast b j st) ! k) = isPinned (balls st ! k))"
proof (cases "j \<noteq> b \<and> isPinned (balls st ! j)")
  case True
  then have "balls (collidePair cfg elast b j st)
      = (balls st)[b := fst (collide cfg elast (balls st ! b) (balls st ! j))]"
    by (simp add: collidePair_pinned)
  then show ?thesis using assms(2) by (simp add: nth_list_update collide_keeps_pin)
next
  case False
  then have "collidePair cfg elast b j st = st" using assms(1) by (auto simp add: collidePair_noop)
  then show ?thesis by simp
qed

lemma fold_pinned_only:
  assumes off: "\<not> enableBallCollisions cfg"
  shows "b < length (balls st) \<Longrightarrow> \<not> isPinned (balls st ! b) \<Longrightarrow>
     fold (collidePair cfg elast b) ks st
       = fold (collidePair cfg elast b) (filter (\<lambda>j. isPinned (balls st ! j)) ks) st"
proof (induction ks arbitrary: st)
  case Nil
  then show ?case by simp
next
  case (Cons j ks)
  let ?st' = "collidePair cfg elast b j st"
  have keep: "length (balls ?st') = length (balls st)"
    "\<And>k. isPinned (balls ?st' ! k) = isPinned (balls st ! k)"
    using collidePair_pins_off [OF off Cons.prems(1), of elast j] by simp_all
  show ?case
  proof (cases "isPinned (balls st ! j)")
    case True
    have "fold (collidePair cfg elast b) ks ?st'
        = fold (collidePair cfg elast b) (filter (\<lambda>k. isPinned (balls ?st' ! k)) ks) ?st'"
      using Cons.prems keep by (intro Cons.IH) simp_all
    then show ?thesis using True by (simp add: keep(2))
  next
    case False
    then have "?st' = st" using off by (simp add: collidePair_noop)
    then show ?thesis using False Cons.IH [OF Cons.prems] by simp
  qed
qed

lemma ballBallPass_pinned_only:
  assumes "\<not> enableBallCollisions cfg" "step mod 2 = 0"
    and "b < length (balls st)" "\<not> isPinned (balls st ! b)"
  shows "ballBallPass cfg elast step b st
       = fold (collidePair cfg elast b)
           (filter (\<lambda>j. isPinned (balls st ! j)) [0..<length (balls st)]) st"
proof (cases "list_ex isPinned (balls st)")
  case True
  then show ?thesis
    using assms by (simp add: ballBallPass_def fold_pinned_only [symmetric])
next
  case False
  then have "\<forall>j < length (balls st). \<not> isPinned (balls st ! j)"
    by (simp add: list_ex_iff)
  then have "filter (\<lambda>j. isPinned (balls st ! j)) [0..<length (balls st)] = []"
    by (simp add: filter_empty_conv)
  then show ?thesis using False assms(1) by (simp add: ballBallPass_def)
qed

text \<open>
  C9 (amended). On a sub-step on which the ball-ball pass is evaluated (an even one, as
  \<open>SUB_STEPS\<close> is not below \<open>4\<close>), with ball collisions disabled, the pass for a moving
  ball \<open>b\<close> is the loop over the pinned balls only; with \<open>j\<close> the one pinned ball it is the
  resolution \<open>st'\<close> of the pair \<open>b\<close>, \<open>j\<close>. That resolution, for a pinned ball \<open>j\<close> that
  overlaps ball \<open>b\<close> at a distinct centre, changes ball \<open>b\<close> only: ball \<open>b\<close> is pushed out
  along the contact normal to exactly the sum of the radii from the pinned ball; if it
  approaches, its velocity is reflected about the normal and scaled by the elasticity,
  and the collision is counted once; otherwise velocity and counter are unchanged.
\<close>

theorem pinned_obstacle_flag_off:
  assumes off: "\<not> enableBallCollisions cfg" and ev: "step mod 2 = 0"
    and b: "b < length (balls st)" "\<not> isPinned (balls st ! b)"
    and j: "j < length (balls st)" "j \<noteq> b"
    and pj: "isPinned (balls st ! j)"
    and ov: "distSq (pos (balls st ! b)) (pos (balls st ! j))
               < (radius (balls st ! b) + radius (balls st ! j))
                 * (radius (balls st ! b) + radius (balls st ! j))"
    and ne: "pos (balls st ! b) \<noteq> pos (balls st ! j)"
    and st': "st' = collidePair cfg elast b j st"
    and n: "n = contactNormal (balls st ! b) (balls st ! j)"
  shows "ballBallPass cfg elast step b st
           = fold (collidePair cfg elast b)
               (filter (\<lambda>i. isPinned (balls st ! i)) [0..<length (balls st)]) st
       \<and> ((\<forall>k < length (balls st). k \<noteq> j \<longrightarrow> \<not> isPinned (balls st ! k))
            \<longrightarrow> ballBallPass cfg elast step b st = st')
       \<and> length (balls st') = length (balls st)
       \<and> (\<forall>k < length (balls st). k \<noteq> b \<longrightarrow> balls st' ! k = balls st ! k)
       \<and> pos (balls st' ! b)
           = add (pos (balls st ! b))
               (mult n (radius (balls st ! b) + radius (balls st ! j)
                         - sqrt (distSq (pos (balls st ! b)) (pos (balls st ! j)))))
       \<and> distSq (pos (balls st' ! b)) (pos (balls st' ! j))
           = (radius (balls st ! b) + radius (balls st ! j))
             * (radius (balls st ! b) + radius (balls st ! j))
       \<and> (dot (vel (balls st ! b)) n < 0 \<longrightarrow>
            vel (balls st' ! b)
              = mult (sub (vel (balls st ! b)) (mult n (2 * dot (vel (balls st ! b)) n))) elast
            \<and> collisionCount st' = collisionCount st + 1)
       \<and> (\<not> dot (vel (balls st ! b)) n < 0 \<longrightarrow>
            vel (balls st' ! b) = vel (balls st ! b) \<and> collisionCount st' = collisionCount st)"
proof -
  let ?ball = "balls st ! b" and ?other = "balls st ! j"
  let ?c = "collide cfg elast ?ball ?other"
  have loop: "ballBallPass cfg elast step b st
           = fold (collidePair cfg elast b)
               (filter (\<lambda>i. isPinned (balls st ! i)) [0..<length (balls st)]) st"
    using off ev b by (rule ballBallPass_pinned_only)
  have single: "ballBallPass cfg elast step b st = st'"
    if "\<forall>k < length (balls st). k \<noteq> j \<longrightarrow> \<not> isPinned (balls st ! k)"
    using ballBallPass_single_pinned [OF off ev b(1) j pj that] by (simp add: st')
  have pass: "st' = st\<lparr>balls := (balls st)[b := fst ?c],
                       collisionCount := collisionCount st + snd (snd ?c)\<rparr>"
    using collidePair_pinned [OF j(2) pj] by (simp add: st')
  have c: "?c =
    (if dot (vel ?ball) n < 0
     then (?ball\<lparr>pos := add (pos ?ball)
                    (mult n (radius ?ball + radius ?other - sqrt (distSq (pos ?ball) (pos ?other)))),
                 vel := mult (sub (vel ?ball) (mult n (2 * dot (vel ?ball) n))) elast\<rparr>, ?other, 1)
     else (?ball\<lparr>pos := add (pos ?ball)
                    (mult n (radius ?ball + radius ?other - sqrt (distSq (pos ?ball) (pos ?other))))\<rparr>,
           ?other, 0))"
    by (simp add: collide_pinned [OF pj ov] Let_def n contactNormal_def)
  have len: "length (balls st') = length (balls st)" by (simp add: pass)
  have others: "\<forall>k < length (balls st). k \<noteq> b \<longrightarrow> balls st' ! k = balls st ! k"
    by (simp add: pass)
  have bb: "balls st' ! b = fst ?c" using b(1) by (simp add: pass)
  have jj: "balls st' ! j = ?other" using j by (simp add: pass)
  have p: "pos (balls st' ! b)
      = add (pos ?ball)
          (mult n (radius ?ball + radius ?other - sqrt (distSq (pos ?ball) (pos ?other))))"
    by (simp add: bb c)
  have touch: "distSq (pos (balls st' ! b)) (pos (balls st' ! j))
      = (radius ?ball + radius ?other) * (radius ?ball + radius ?other)"
    unfolding p jj n contactNormal_def by (rule pushed_out [OF ne])
  have hit: "vel (balls st' ! b) = mult (sub (vel ?ball) (mult n (2 * dot (vel ?ball) n))) elast
      \<and> collisionCount st' = collisionCount st + 1" if "dot (vel ?ball) n < 0"
  proof
    show "vel (balls st' ! b) = mult (sub (vel ?ball) (mult n (2 * dot (vel ?ball) n))) elast"
      using that by (simp add: bb c)
    show "collisionCount st' = collisionCount st + 1"
      using that by (simp add: pass c)
  qed
  have miss: "vel (balls st' ! b) = vel ?ball \<and> collisionCount st' = collisionCount st"
    if "\<not> dot (vel ?ball) n < 0"
  proof
    show "vel (balls st' ! b) = vel ?ball" using that by (simp add: bb c)
    show "collisionCount st' = collisionCount st" using that by (simp add: pass c)
  qed
  from loop single len others p touch hit miss show ?thesis by blast
qed

text \<open>
  C9, as stated, fails: on sub-step \<open>1\<close> the pass does not run although a pinned ball
  exists and overlaps the moving ball; the state is unchanged. On sub-step \<open>0\<close> the same
  ball is pushed out.
\<close>

theorem pinned_pass_skipped_on_odd_step:
  "\<not> enableBallCollisions cfg0 \<and> \<not> isPinned ballA \<and> isPinned ballP
   \<and> distSq (pos ballA) (pos ballP) < (radius ballA + radius ballP) * (radius ballA + radius ballP)
   \<and> ballBallPass cfg0 1 1 0 (stOf [ballA, ballP]) = stOf [ballA, ballP]
   \<and> pos (balls (ballBallPass cfg0 1 0 0 (stOf [ballA, ballP])) ! 0) = \<lparr>x = - 1, y = 0\<rparr>"
  by (simp add: ballBallPass_def collidePair_def collide_def SUB_STEPS_def stOf_def
      ballA_def ballB_def ballP_def cfg0_def vec_defs Let_def)

theorem pinned_obstacle_flag_off_witness:
  "ballBallPass cfg0 1 0 0 (stOf [ballA, ballP]) = collidePair cfg0 1 0 1 (stOf [ballA, ballP])
   \<and> pos (balls (collidePair cfg0 1 0 1 (stOf [ballA, ballP])) ! 0) = \<lparr>x = - 1, y = 0\<rparr>
   \<and> vel (balls (collidePair cfg0 1 0 1 (stOf [ballA, ballP])) ! 0) = \<lparr>x = - 1, y = 0\<rparr>
   \<and> collisionCount (collidePair cfg0 1 0 1 (stOf [ballA, ballP])) = 1"
proof -
  have only: "\<forall>k < length (balls (stOf [ballA, ballP])). k \<noteq> 1
      \<longrightarrow> \<not> isPinned (balls (stOf [ballA, ballP]) ! k)"
    by (auto simp add: stOf_def ballA_def less_Suc_eq)
  have n: "contactNormal ballA ballP = \<lparr>x = - 1, y = 0\<rparr>"
    by (simp add: contactNormal_def ballA_def ballB_def ballP_def vec_defs)
  have pre: "\<not> enableBallCollisions cfg0" "(0::nat) mod 2 = 0"
    "0 < length (balls (stOf [ballA, ballP]))" "\<not> isPinned (balls (stOf [ballA, ballP]) ! 0)"
    "1 < length (balls (stOf [ballA, ballP]))" "(1::nat) \<noteq> 0"
    "isPinned (balls (stOf [ballA, ballP]) ! 1)"
    "distSq (pos (balls (stOf [ballA, ballP]) ! 0)) (pos (balls (stOf [ballA, ballP]) ! 1))
       < (radius (balls (stOf [ballA, ballP]) ! 0) + radius (balls (stOf [ballA, ballP]) ! 1))
         * (radius (balls (stOf [ballA, ballP]) ! 0) + radius (balls (stOf [ballA, ballP]) ! 1))"
    "pos (balls (stOf [ballA, ballP]) ! 0) \<noteq> pos (balls (stOf [ballA, ballP]) ! 1)"
    by (simp_all add: stOf_def ballA_def ballB_def ballP_def cfg0_def vec_defs)
  have nn: "\<lparr>x = - 1, y = 0\<rparr>
      = contactNormal (balls (stOf [ballA, ballP]) ! 0) (balls (stOf [ballA, ballP]) ! 1)"
    by (simp add: n stOf_def)
  note t = pinned_obstacle_flag_off [OF pre refl nn, of 1]
  have v: "dot (vel (balls (stOf [ballA, ballP]) ! 0)) \<lparr>x = - 1, y = 0\<rparr> < 0"
    by (simp add: stOf_def ballA_def dot_def)
  have p: "pos (balls (collidePair cfg0 1 0 1 (stOf [ballA, ballP])) ! 0) = \<lparr>x = - 1, y = 0\<rparr>"
    using t by (simp add: stOf_def ballA_def ballB_def ballP_def vec_defs)
  have w: "vel (balls (collidePair cfg0 1 0 1 (stOf [ballA, ballP])) ! 0) = \<lparr>x = - 1, y = 0\<rparr>"
    using t v by (simp add: stOf_def ballA_def ballB_def ballP_def vec_defs)
  have k: "collisionCount (collidePair cfg0 1 0 1 (stOf [ballA, ballP])) = 1"
    using t v by (simp add: stOf_def)
  have s: "ballBallPass cfg0 1 0 0 (stOf [ballA, ballP])
      = collidePair cfg0 1 0 1 (stOf [ballA, ballP])"
    using t only by blast
  from s p w k show ?thesis by blast
qed

subsection \<open>Counting wall collisions\<close>

lemma fold_invariant:
  "P s \<Longrightarrow> (\<And>k t. P t \<Longrightarrow> P (f k t)) \<Longrightarrow> P (fold f ks s)"
  by (induction ks arbitrary: s) simp_all

lemma circleWall_count:
  "snd (snd (circleWall cfg elast env rot layer layerRadius (ball, gaps, cnt)))
     = (if circleHit cfg env rot layer layerRadius ball gaps then countWallHit cfg cnt else cnt)"
  by (simp add: circleWall_def circleHit_def Let_def)

lemma polygonSide_count:
  "snd (snd (polygonSide cfg elast layer verts i (ball, gaps, cnt)))
     = (if sideHit cfg layer verts i ball gaps then countWallHit cfg cnt else cnt)"
  by (simp add: polygonSide_def sideHit_def Let_def)

lemma countWallHit_ge: "cnt \<le> countWallHit cfg cnt"
  by (simp add: countWallHit_def)

lemma countWallHit_off:
  "enableBallCollisions cfg \<Longrightarrow> \<not> recordWallCollisions cfg \<Longrightarrow> countWallHit cfg cnt = cnt"
  by (simp add: countWallHit_def)

lemma wallLayer_count_ge:
  assumes c: "c \<le> snd (snd ctx)"
  shows "c \<le> snd (snd (wallLayer cfg elast env rot layer ctx))"
proof -
  have side: "c \<le> snd (snd (polygonSide cfg elast layer verts i t))" if "c \<le> snd (snd t)"
    for verts i t
    using that countWallHit_ge [of "snd (snd t)" cfg]
    by (cases t) (simp add: polygonSide_count)
  have circ: "c \<le> snd (snd (circleWall cfg elast env rot layer r ctx))" for r
    using c countWallHit_ge [of "snd (snd ctx)" cfg]
    by (cases ctx) (simp add: circleWall_count)
  have poly: "c \<le> snd (snd (fold (polygonSide cfg elast layer verts) ks ctx))" for verts ks
    by (rule fold_invariant [where P = "\<lambda>t. c \<le> snd (snd t)"]) (simp_all add: c side)
  show ?thesis
    by (simp add: wallLayer_def Let_def c circ poly)
qed

lemma wallLayer_count_off:
  assumes "enableBallCollisions cfg" "\<not> recordWallCollisions cfg"
    and c: "snd (snd ctx) = c"
  shows "snd (snd (wallLayer cfg elast env rot layer ctx)) = c"
proof -
  have side: "snd (snd (polygonSide cfg elast layer verts i t)) = c" if "snd (snd t) = c"
    for verts i t
    using that assms(1,2) by (cases t) (simp add: polygonSide_count countWallHit_off)
  have circ: "snd (snd (circleWall cfg elast env rot layer r ctx)) = c" for r
    using c assms(1,2) by (cases ctx) (simp add: circleWall_count countWallHit_off)
  have poly: "snd (snd (fold (polygonSide cfg elast layer verts) ks ctx)) = c" for verts ks
    by (rule fold_invariant [where P = "\<lambda>t. snd (snd t) = c"]) (simp_all add: c side)
  show ?thesis
    by (simp add: wallLayer_def Let_def c circ poly)
qed

text \<open>
  C7. A wall collision resolved by \<open>circleWall\<close> or by \<open>polygonSide\<close> increments the
  collision counter if and only if ball collisions are disabled or \<open>recordWallCollisions\<close>
  holds; nothing else in the wall code changes the counter. Over a whole wall pass the
  counter never decreases, and it is unchanged when ball collisions are enabled and
  \<open>recordWallCollisions\<close> is false.
\<close>

theorem wall_hit_counting_policy:
  "snd (snd (circleWall cfg elast env rot layer layerRadius (ball, gaps, cnt)))
     = (if circleHit cfg env rot layer layerRadius ball gaps
           \<and> (\<not> enableBallCollisions cfg \<or> recordWallCollisions cfg)
        then cnt + 1 else cnt)
   \<and> snd (snd (polygonSide cfg elast layer verts i (ball, gaps, cnt)))
     = (if sideHit cfg layer verts i ball gaps
           \<and> (\<not> enableBallCollisions cfg \<or> recordWallCollisions cfg)
        then cnt + 1 else cnt)
   \<and> snd (snd ctx) \<le> snd (snd (wallPass cfg elast env rot ctx))
   \<and> (enableBallCollisions cfg \<and> \<not> recordWallCollisions cfg
        \<longrightarrow> snd (snd (wallPass cfg elast env rot ctx)) = snd (snd ctx))"
proof (intro conjI impI)
  show "snd (snd (circleWall cfg elast env rot layer layerRadius (ball, gaps, cnt)))
     = (if circleHit cfg env rot layer layerRadius ball gaps
           \<and> (\<not> enableBallCollisions cfg \<or> recordWallCollisions cfg)
        then cnt + 1 else cnt)"
    by (simp add: circleWall_count countWallHit_def)
  show "snd (snd (polygonSide cfg elast layer verts i (ball, gaps, cnt)))
     = (if sideHit cfg layer verts i ball gaps
           \<and> (\<not> enableBallCollisions cfg \<or> recordWallCollisions cfg)
        then cnt + 1 else cnt)"
    by (simp add: polygonSide_count countWallHit_def)
  show "snd (snd ctx) \<le> snd (snd (wallPass cfg elast env rot ctx))"
    unfolding wallPass_def
    by (rule fold_invariant [where P = "\<lambda>t. snd (snd ctx) \<le> snd (snd t)"])
      (simp_all add: wallLayer_count_ge)
next
  assume off: "enableBallCollisions cfg \<and> \<not> recordWallCollisions cfg"
  show "snd (snd (wallPass cfg elast env rot ctx)) = snd (snd ctx)"
    unfolding wallPass_def
    by (rule fold_invariant [where P = "\<lambda>t. snd (snd t) = snd (snd ctx)"])
      (use off in \<open>simp_all add: wallLayer_count_off\<close>)
qed

lemma circleHit_ballW: "circleHit cfgCircle env0 0 0 180 ballW {}"
proof -
  have m: "mag (sub (pos ballW) (center env0)) = 178"
    by (simp add: ballW_def center_def env0_def sub_def mag_axis_x)
  have n: "circleNormal env0 180 ballW = \<lparr>x = - 1, y = 0\<rparr>"
    by (simp add: circleNormal_def Let_def m)
      (simp add: ballW_def center_def env0_def sub_def normalizeV_def mag_axis_x)
  show ?thesis
    by (simp add: circleHit_def m n)
      (simp add: circleAutoGap_def cfgCircle_def cfg0_def ballW_def dot_def)
qed

lemma sideHit_ballS: "sideHit cfg0 0 square 0 ballS {}" "sideHit cfgBB 0 square 0 ballS {}"
  by (simp_all add: sideHit_def isAutoGap_def distToSegment_def Let_def square_def sides_def
      cfgBB_def cfg0_def ballS_def vec_defs distV_def normalizeV_def mag_axis_y)

theorem wall_hit_counting_policy_witness:
  "snd (snd (circleWall cfgCircle 1 env0 0 0 180 (ballW, {}, 0))) = 1
   \<and> snd (snd (polygonSide cfg0 1 0 square 0 (ballS, {}, 0))) = 1
   \<and> snd (snd (polygonSide cfgBB 1 0 square 0 (ballS, {}, 0))) = 0
   \<and> snd (snd (wallPass cfgBB 1 env0 0 (ballS, {}, 0))) = 0"
proof -
  have off: "enableBallCollisions cfgBB \<and> \<not> recordWallCollisions cfgBB"
    by (simp add: cfgBB_def cfg0_def)
  have on: "\<not> enableBallCollisions cfgCircle \<or> recordWallCollisions cfgCircle"
    "\<not> enableBallCollisions cfg0 \<or> recordWallCollisions cfg0"
    by (simp_all add: cfgCircle_def cfg0_def)
  show ?thesis
    using off on circleHit_ballW sideHit_ballS
      wall_hit_counting_policy [where cfg = cfgCircle and elast = 1 and env = env0 and rot = 0
        and layer = 0 and layerRadius = 180 and ball = ballW and gaps = "{}" and cnt = 0]
      wall_hit_counting_policy [where cfg = cfg0 and elast = 1 and layer = 0
        and verts = square and i = 0 and ball = ballS and gaps = "{}" and cnt = 0]
      wall_hit_counting_policy [where cfg = cfgBB and elast = 1 and env = env0 and rot = 0
        and layer = 0 and verts = square and i = 0 and ball = ballS and gaps = "{}" and cnt = 0
        and ctx = "(ballS, {}, 0)"]
    by simp
qed

subsection \<open>The hovered wall\<close>

lemma upt_split: "i < n \<Longrightarrow> [0..<n] = [0..<i] @ i # [Suc i..<n]"
  by (metis le0 less_imp_le_nat upt_add_eq_append upt_conv_Cons le_add_diff_inverse plus_nat.add_0)

lemma fold_none:
  assumes "\<And>k. k < n \<Longrightarrow> f k None = None"
  shows "fold f [0..<n] None = None"
  by (rule fold_noop) (simp add: assms)

lemma fold_first:
  assumes "i < n" and "\<And>k. k < i \<Longrightarrow> f k None = None" and "f i None = Some w"
    and "\<And>k v. f k (Some v) = Some v"
  shows "fold f [0..<n] None = Some w"
proof -
  have "fold f [0..<i] None = None" using assms(2) by (rule fold_none)
  moreover have "fold f [Suc i..<n] (Some w) = Some w"
    by (rule fold_noop) (simp add: assms(4))
  ultimately show ?thesis by (simp add: upt_split [OF assms(1)] assms(3))
qed

lemma hoverSide_Some: "hoverSide cfg paused mouse layer verts i (Some v) = Some v"
  by (simp add: hoverSide_def Let_def)

lemma hoverLayer_Some: "hoverLayer cfg paused env rot mouse layer (Some v) = Some v"
proof -
  have "fold (hoverSide cfg paused mouse layer verts) ks (Some v) = Some v" for verts ks
    by (rule fold_noop) (simp add: hoverSide_Some)
  then show ?thesis by (simp add: hoverLayer_def hoverCircle_def Let_def)
qed

lemma hoverLayer_inactive:
  assumes "\<not> (isGodMode cfg \<and> paused)"
  shows "hoverLayer cfg paused env rot mouse layer hov = hov"
proof -
  have "fold (hoverSide cfg paused mouse layer verts) ks hov = hov" for verts ks
    by (rule fold_noop) (use assms in \<open>auto simp add: hoverSide_def Let_def\<close>)
  then show ?thesis using assms by (auto simp add: hoverLayer_def hoverCircle_def Let_def)
qed

lemma hoverLayer_none:
  assumes "\<And>i. \<not> wallNear cfg env rot mouse layer i"
  shows "hoverLayer cfg paused env rot mouse layer None = None"
proof (cases "layerRadiusOf cfg env layer \<le> 0")
  case True
  then show ?thesis by (simp add: hoverLayer_def)
next
  case False
  show ?thesis
  proof (cases "isCircle cfg")
    case True
    then show ?thesis
      using assms [of 0] False by (simp add: hoverLayer_def hoverCircle_def wallNear_def Let_def)
  next
    case poly: False
    have "fold (hoverSide cfg paused mouse layer
             (layerVertices cfg env rot (layerRadiusOf cfg env layer))) [0..<sides cfg] None = None"
    proof (rule fold_none)
      fix k assume "k < sides cfg"
      then show "hoverSide cfg paused mouse layer
             (layerVertices cfg env rot (layerRadiusOf cfg env layer)) k None = None"
        using assms [of k] False poly by (auto simp add: hoverSide_def wallNear_def Let_def)
    qed
    then show ?thesis using False poly by (simp add: hoverLayer_def Let_def)
  qed
qed

lemma hoverLayer_first:
  assumes on: "isGodMode cfg" "paused"
    and near: "wallNear cfg env rot mouse layer i"
    and first: "\<And>k. k < i \<Longrightarrow> \<not> wallNear cfg env rot mouse layer k"
  shows "hoverLayer cfg paused env rot mouse layer None = Some (wallId layer i)"
proof -
  have r: "\<not> layerRadiusOf cfg env layer \<le> 0" using near by (simp add: wallNear_def)
  show ?thesis
  proof (cases "isCircle cfg")
    case True
    then show ?thesis
      using near on r by (simp add: hoverLayer_def hoverCircle_def wallNear_def Let_def)
  next
    case poly: False
    let ?verts = "layerVertices cfg env rot (layerRadiusOf cfg env layer)"
    have i: "i < sides cfg" using near poly by (simp add: wallNear_def)
    have "fold (hoverSide cfg paused mouse layer ?verts) [0..<sides cfg] None
            = Some (wallId layer i)"
    proof (rule fold_first [OF i])
      fix k assume "k < i"
      then show "hoverSide cfg paused mouse layer ?verts k None = None"
        using first [of k] i r poly by (auto simp add: hoverSide_def wallNear_def Let_def)
    next
      show "hoverSide cfg paused mouse layer ?verts i None = Some (wallId layer i)"
        using near on poly by (simp add: hoverSide_def wallNear_def Let_def)
    next
      fix k v show "hoverSide cfg paused mouse layer ?verts k (Some v) = Some v"
        by (rule hoverSide_Some)
    qed
    then show ?thesis using r poly by (simp add: hoverLayer_def Let_def)
  qed
qed

lemma update_paused:
  "update cfg True env micAverage rnd st = st\<lparr>hoveredWall := hoverPass cfg True env st\<rparr>"
  by (simp add: update_def physics_def)

text \<open>
  C8 (amended). After a frame, no wall is hovered unless god mode is on and the simulation
  is paused. If both hold, the hovered wall is the first wall, in drawing order (layers
  from the outermost inwards, sides by index), that is drawn and within \<open>20\<close> pixels of
  the pointer, and none if there is no such wall. (There is at most one by the type of
  the ref.)
\<close>

theorem hover_first_in_drawing_order:
  "(\<not> (isGodMode cfg \<and> paused) \<longrightarrow>
      hoveredWall (update cfg paused env micAverage rnd st) = None)
   \<and> (isGodMode cfg \<and> paused \<and> layer < polygonLayers cfg
        \<and> wallNear cfg env (rotation st) (mousePos st) layer i
        \<and> (\<forall>l k. l < layer \<or> (l = layer \<and> k < i)
               \<longrightarrow> \<not> wallNear cfg env (rotation st) (mousePos st) l k)
      \<longrightarrow> hoveredWall (update cfg paused env micAverage rnd st) = Some (wallId layer i))
   \<and> (isGodMode cfg \<and> paused
        \<and> (\<forall>l k. l < polygonLayers cfg \<longrightarrow> \<not> wallNear cfg env (rotation st) (mousePos st) l k)
      \<longrightarrow> hoveredWall (update cfg paused env micAverage rnd st) = None)"
proof (intro conjI impI)
  assume off: "\<not> (isGodMode cfg \<and> paused)"
  have "hoverPass cfg paused env s = None" for s
    unfolding hoverPass_def by (rule fold_noop) (simp add: hoverLayer_inactive [OF off])
  then show "hoveredWall (update cfg paused env micAverage rnd st) = None"
    by (simp add: update_def Let_def)
next
  assume a: "isGodMode cfg \<and> paused \<and> layer < polygonLayers cfg
        \<and> wallNear cfg env (rotation st) (mousePos st) layer i
        \<and> (\<forall>l k. l < layer \<or> (l = layer \<and> k < i)
               \<longrightarrow> \<not> wallNear cfg env (rotation st) (mousePos st) l k)"
  then have p: "paused = True" by simp
  have "hoverPass cfg paused env st = Some (wallId layer i)"
    unfolding hoverPass_def
  proof (rule fold_first)
    show "layer < polygonLayers cfg" using a by simp
    show "hoverLayer cfg paused env (rotation st) (mousePos st) l None = None" if "l < layer" for l
      by (rule hoverLayer_none) (use a that in blast)
    show "hoverLayer cfg paused env (rotation st) (mousePos st) layer None = Some (wallId layer i)"
      by (rule hoverLayer_first) (use a in \<open>blast+\<close>)
    show "hoverLayer cfg paused env (rotation st) (mousePos st) l (Some v) = Some v" for l v
      by (rule hoverLayer_Some)
  qed
  then show "hoveredWall (update cfg paused env micAverage rnd st) = Some (wallId layer i)"
    by (simp add: p update_paused)
next
  assume a: "isGodMode cfg \<and> paused
        \<and> (\<forall>l k. l < polygonLayers cfg \<longrightarrow> \<not> wallNear cfg env (rotation st) (mousePos st) l k)"
  then have p: "paused = True" by simp
  have "hoverPass cfg paused env st = None"
    unfolding hoverPass_def
    by (rule fold_none, rule hoverLayer_none) (use a in blast)
  then show "hoveredWall (update cfg paused env micAverage rnd st) = None"
    by (simp add: p update_paused)
qed

lemma rings_radius:
  "layerRadiusOf cfgRings env0 0 = 180" "layerRadiusOf cfgRings env0 (Suc 0) = 150"
  "layerRadiusOf cfgRings env0 1 = 150"
  by (simp_all add: layerRadiusOf_def maxRadius_def cfgRings_def cfg0_def env0_def)

lemma rings_mouse: "mag (sub (mousePos (stMouse \<lparr>x = a, y = 200\<rparr>)) (center env0)) = \<bar>a - 200\<bar>"
  by (simp add: stMouse_def stOf_def center_def env0_def sub_def mag_axis_x)

lemma rings_flags: "isGodMode cfgRings" "isCircle cfgRings" "polygonLayers cfgRings = 2"
  by (simp_all add: cfgRings_def)

lemma wallId_values: "wallId 0 0 = ''0-0''" "wallId 1 0 = ''1-0''" "wallId (Suc 0) 0 = ''1-0''"
  by (simp_all add: wallId_def showNat.simps digitChar_def)

text \<open>
  C8, as stated, fails: with rings of radius \<open>180\<close> and \<open>150\<close> and the pointer \<open>162\<close> from
  the centre, both rings are within the tolerance, at \<open>18\<close> and \<open>12\<close>; the hovered wall is
  the outer ring \<open>0-0\<close>, not the nearer ring \<open>1-0\<close>.
\<close>

theorem hover_not_nearest:
  "isGodMode cfgRings
   \<and> \<bar>mag (sub (mousePos (stMouse \<lparr>x = 362, y = 200\<rparr>)) (center env0))
        - layerRadiusOf cfgRings env0 0\<bar> = 18
   \<and> \<bar>mag (sub (mousePos (stMouse \<lparr>x = 362, y = 200\<rparr>)) (center env0))
        - layerRadiusOf cfgRings env0 1\<bar> = 12
   \<and> hoveredWall (update cfgRings True env0 None (\<lambda>s b k. 0) (stMouse \<lparr>x = 362, y = 200\<rparr>))
       = Some ''0-0''
   \<and> wallId 1 0 = ''1-0''"
proof -
  have "hoverPass cfgRings True env0 (stMouse \<lparr>x = 362, y = 200\<rparr>) = Some ''0-0''"
    by (simp add: hoverPass_def hoverLayer_def hoverCircle_def Let_def rings_flags rings_radius
        rings_mouse wallId_values numeral_2_eq_2)
  then show ?thesis
    by (simp add: update_paused rings_flags rings_radius rings_mouse wallId_values)
qed

theorem hover_first_in_drawing_order_witness:
  "hoveredWall (update cfgRings True env0 None (\<lambda>s b k. 0) (stMouse \<lparr>x = 340, y = 200\<rparr>))
       = Some (wallId 1 0)
   \<and> hoveredWall (update cfgRings True env0 None (\<lambda>s b k. 0) (stMouse \<lparr>x = 200, y = 200\<rparr>))
       = None
   \<and> hoveredWall (update cfgRings False env0 None (\<lambda>s b k. 0) (stMouse \<lparr>x = 340, y = 200\<rparr>))
       = None"
proof -
  let ?m = "\<lparr>x = 340, y = 200\<rparr> :: Vector2" and ?c = "\<lparr>x = 200, y = 200\<rparr> :: Vector2"
  have near: "wallNear cfgRings env0 (rotation (stMouse ?m)) (mousePos (stMouse ?m)) 1 0"
    by (simp add: wallNear_def rings_flags rings_radius rings_mouse)
  have before: "\<forall>l k. l < 1 \<or> (l = 1 \<and> k < 0)
      \<longrightarrow> \<not> wallNear cfgRings env0 (rotation (stMouse ?m)) (mousePos (stMouse ?m)) l k"
    by (simp add: wallNear_def rings_flags rings_radius rings_mouse)
  have nowhere: "\<forall>l k. l < polygonLayers cfgRings
      \<longrightarrow> \<not> wallNear cfgRings env0 (rotation (stMouse ?c)) (mousePos (stMouse ?c)) l k"
    by (auto simp add: wallNear_def rings_flags rings_radius rings_mouse less_Suc_eq numeral_2_eq_2)
  have one: "hoveredWall (update cfgRings True env0 None (\<lambda>s b k. 0) (stMouse ?m))
       = Some (wallId 1 0)"
    using near before rings_flags
      hover_first_in_drawing_order [where cfg = cfgRings and paused = True and layer = 1
        and i = 0 and st = "stMouse ?m" and env = env0]
    by simp
  have two: "hoveredWall (update cfgRings True env0 None (\<lambda>s b k. 0) (stMouse ?c)) = None"
    using nowhere rings_flags
      hover_first_in_drawing_order [where cfg = cfgRings and paused = True
        and st = "stMouse ?c" and env = env0]
    by simp
  have three: "hoveredWall (update cfgRings False env0 None (\<lambda>s b k. 0) (stMouse ?m)) = None"
    using hover_first_in_drawing_order [where cfg = cfgRings and paused = False
        and st = "stMouse ?m" and env = env0]
    by simp
  from one two three show ?thesis by blast
qed

subsection \<open>Pinned balls\<close>

lemma filter_update_out:
  assumes "\<not> P (xs ! b)" "\<not> P v"
  shows "filter P (xs[b := v]) = filter P xs"
proof (cases "b < length xs")
  case True
  have old: "xs = take b xs @ xs ! b # drop (Suc b) xs"
    using True by (simp add: id_take_nth_drop [symmetric])
  have "filter P (xs[b := v]) = filter P (take b xs) @ filter P (drop (Suc b) xs)"
    using assms(2) by (simp add: upd_conv_take_nth_drop [OF True])
  also have "\<dots> = filter P (take b xs @ xs ! b # drop (Suc b) xs)"
    using assms(1) by simp
  also have "\<dots> = filter P xs" using old by simp
  finally show ?thesis .
next
  case False
  then have "length xs \<le> b" by simp
  then have "xs[b := v] = xs" by (rule list_update_beyond)
  then show ?thesis by simp
qed

lemma filter_remove_out:
  assumes "b < length xs" "\<not> P (xs ! b)"
  shows "filter P (take b xs @ drop (Suc b) xs) = filter P xs"
proof -
  have old: "xs = take b xs @ xs ! b # drop (Suc b) xs"
    using assms(1) by (simp add: id_take_nth_drop [symmetric])
  have "filter P (take b xs @ drop (Suc b) xs)
          = filter P (take b xs @ xs ! b # drop (Suc b) xs)"
    using assms(2) by simp
  also have "\<dots> = filter P xs" using old by simp
  finally show ?thesis .
qed

lemma filter_map_fixed:
  assumes "\<And>v. P (f v) = P v" "\<And>v. P v \<Longrightarrow> f v = v"
  shows "filter P (map f xs) = filter P xs"
  by (induction xs) (simp_all add: assms)

lemma integrate_pin: "isPinned (integrate cfg ball) = isPinned ball"
  by (simp add: integrate_def Let_def)

lemma respawn_pin: "isPinned (respawn cfg env rnd ball) = isPinned ball"
  by (simp add: respawn_def Let_def)

lemma circleWall_pin:
  "isPinned (fst (circleWall cfg elast env rot layer r ctx)) = isPinned (fst ctx)"
  by (cases ctx) (simp add: circleWall_def Let_def)

lemma polygonSide_pin:
  "isPinned (fst (polygonSide cfg elast layer verts i ctx)) = isPinned (fst ctx)"
  by (cases ctx) (simp add: polygonSide_def Let_def)

lemma wallLayer_pin:
  "isPinned (fst (wallLayer cfg elast env rot layer ctx)) = isPinned (fst ctx)"
proof -
  have "isPinned (fst (fold (polygonSide cfg elast layer verts) ks ctx)) = isPinned (fst ctx)"
    for verts ks
    by (rule fold_invariant [where P = "\<lambda>t. isPinned (fst t) = isPinned (fst ctx)"])
      (simp_all add: polygonSide_pin)
  then show ?thesis by (simp add: wallLayer_def Let_def circleWall_pin)
qed

lemma wallPass_pin:
  "isPinned (fst (wallPass cfg elast env rot ctx)) = isPinned (fst ctx)"
  unfolding wallPass_def
  by (rule fold_invariant [where P = "\<lambda>t. isPinned (fst t) = isPinned (fst ctx)"])
    (simp_all add: wallLayer_pin)

lemma collidePair_moving:
  assumes "moving b frozen st" "j < length (balls st)"
  shows "moving b frozen (collidePair cfg elast b j st)
         \<and> length (balls (collidePair cfg elast b j st)) = length (balls st)"
proof (cases "b = j")
  case True
  then show ?thesis using assms by (simp add: collidePair_def)
next
  case False
  let ?xs = "balls st"
  obtain ball' other' k where c: "collide cfg elast (?xs ! b) (?xs ! j) = (ball', other', k)"
    by (cases "collide cfg elast (?xs ! b) (?xs ! j)") auto
  have b: "b < length ?xs" "\<not> isPinned (?xs ! b)" "filter isPinned ?xs = frozen"
    using assms(1) by (simp_all add: moving_def)
  have pb: "\<not> isPinned ball'"
    using collide_keeps_pin(1) [of cfg elast "?xs ! b" "?xs ! j"] b(2) c by simp
  have st': "balls (collidePair cfg elast b j st) = ?xs[b := ball', j := other']"
    using False c by (simp add: collidePair_def)
  have f1: "filter isPinned (?xs[b := ball']) = frozen"
    using b(2,3) pb by (simp add: filter_update_out)
  have f2: "filter isPinned (?xs[b := ball', j := other']) = frozen"
  proof (cases "isPinned (?xs ! j)")
    case True
    then have "other' = ?xs ! j"
      using collide_pinned_other [of "?xs ! j" cfg elast "?xs ! b"] c by simp
    then show ?thesis using False f1 by (simp add: list_update_other_id)
  next
    case unp: False
    then have "\<not> isPinned other'"
      using collide_keeps_pin(2) [of cfg elast "?xs ! b" "?xs ! j"] c by simp
    moreover have "\<not> isPinned (?xs[b := ball'] ! j)" using unp False by simp
    ultimately show ?thesis using f1 by (simp add: filter_update_out)
  qed
  have nb: "(?xs[b := ball', j := other']) ! b = ball'" using False b(1) by simp
  show ?thesis using b(1) pb f2 nb by (simp add: moving_def st')
qed

lemma ballBallPass_moving:
  assumes "moving b frozen st"
  shows "moving b frozen (ballBallPass cfg elast step b st)
         \<and> length (balls (ballBallPass cfg elast step b st)) = length (balls st)"
proof -
  let ?n = "length (balls st)"
  have "moving b frozen (fold (collidePair cfg elast b) ks st)
        \<and> length (balls (fold (collidePair cfg elast b) ks st)) = ?n"
    if "\<forall>j \<in> set ks. j < ?n" for ks
    using that assms
  proof (induction ks arbitrary: st)
    case Nil
    then show ?case by simp
  next
    case (Cons j ks)
    have step: "moving b frozen (collidePair cfg elast b j st)"
      "length (balls (collidePair cfg elast b j st)) = length (balls st)"
      using collidePair_moving [of b frozen st j cfg elast] Cons.prems by simp_all
    show ?case using Cons.IH [of "collidePair cfg elast b j st"] Cons.prems(1) step by simp
  qed
  then show ?thesis using assms by (simp add: ballBallPass_def)
qed

lemma boundary_frozen:
  assumes "moving b frozen st"
  shows "filter isPinned (balls (boundary cfg env rnd b st)) = frozen
         \<and> b \<le> length (balls (boundary cfg env rnd b st))"
proof -
  have b: "b < length (balls st)" "\<not> isPinned (balls st ! b)" "filter isPinned (balls st) = frozen"
    using assms by (simp_all add: moving_def)
  have "filter isPinned (take b (balls st) @ drop (Suc b) (balls st)) = frozen"
    using filter_remove_out [of b "balls st" isPinned] b by simp
  moreover have "filter isPinned ((balls st)[b := respawn cfg env rnd (balls st ! b)]) = frozen"
    using b by (simp add: filter_update_out respawn_pin)
  ultimately show ?thesis using b(1,3) by (auto simp add: boundary_def Let_def)
qed

lemma processBall_frozen:
  assumes "b < length (balls st)"
  shows "filter isPinned (balls (processBall cfg elast env rnd step b st))
           = filter isPinned (balls st)
         \<and> b \<le> length (balls (processBall cfg elast env rnd step b st))"
proof (cases "isPinned (balls st ! b)")
  case True
  then show ?thesis using assms by (simp add: processBall_def)
next
  case False
  let ?frozen = "filter isPinned (balls st)"
  let ?st1 = "st\<lparr>balls := (balls st)[b := integrate cfg (balls st ! b)]\<rparr>"
  let ?st2 = "ballBallPass cfg elast step b ?st1"
  have m1: "moving b ?frozen ?st1"
    using assms False by (simp add: moving_def filter_update_out integrate_pin)
  have m2: "moving b ?frozen ?st2" using m1 by (simp add: ballBallPass_moving)
  obtain ball3 gaps3 cnt3 where
    w: "wallPass cfg elast env (rotation ?st2) (balls ?st2 ! b, manualGaps ?st2, collisionCount ?st2)
          = (ball3, gaps3, cnt3)"
    by (cases "wallPass cfg elast env (rotation ?st2)
          (balls ?st2 ! b, manualGaps ?st2, collisionCount ?st2)") auto
  let ?st3 = "?st2\<lparr>balls := (balls ?st2)[b := ball3], manualGaps := gaps3, collisionCount := cnt3\<rparr>"
  have p3: "\<not> isPinned ball3"
    using wallPass_pin [of cfg elast env "rotation ?st2"
        "(balls ?st2 ! b, manualGaps ?st2, collisionCount ?st2)"] w m2
    by (simp add: moving_def)
  have m3: "moving b ?frozen ?st3"
    using m2 p3 by (simp add: moving_def filter_update_out)
  have "processBall cfg elast env rnd step b st = boundary cfg env (rnd step b) b ?st3"
    using False w by (simp add: processBall_def Let_def)
  then show ?thesis using boundary_frozen [OF m3] by simp
qed

lemma processBalls_frozen:
  "n \<le> length (balls st) \<Longrightarrow>
     filter isPinned (balls (processBalls cfg elast env rnd step n st)) = filter isPinned (balls st)"
proof (induction n arbitrary: st)
  case 0
  then show ?case by simp
next
  case (Suc n)
  then have "n < length (balls st)" by simp
  then have "filter isPinned (balls (processBall cfg elast env rnd step n st))
           = filter isPinned (balls st)"
    and "n \<le> length (balls (processBall cfg elast env rnd step n st))"
    using processBall_frozen [of n st cfg elast env rnd step] by simp_all
  then show ?case using Suc.IH [of "processBall cfg elast env rnd step n st"] by simp
qed

lemma subStep_frozen:
  "filter isPinned (balls (subStep cfg elast env rnd step st)) = filter isPinned (balls st)"
  by (simp add: subStep_def Let_def processBalls_frozen)

lemma updateTrail_pin: "isPinned (updateTrail ball) = isPinned ball"
  by (simp add: updateTrail_def Let_def)

lemma updateTrail_pinned: "isPinned ball \<Longrightarrow> updateTrail ball = ball"
  by (simp add: updateTrail_def)

lemma physics_frozen:
  "filter isPinned (balls (physics cfg paused env micAverage rnd st)) = filter isPinned (balls st)"
proof -
  have "filter isPinned (balls (fold (subStep cfg elast env rnd) ks st)) = filter isPinned (balls st)"
    for elast ks
    by (rule fold_invariant [where P = "\<lambda>t. filter isPinned (balls t) = filter isPinned (balls st)"])
      (simp_all add: subStep_frozen)
  then show ?thesis
    by (simp add: physics_def Let_def filter_map_fixed updateTrail_pin updateTrail_pinned)
qed

lemma update_frozen:
  "filter isPinned (balls (update cfg paused env micAverage rnd st)) = filter isPinned (balls st)"
  by (simp add: update_def Let_def physics_frozen)

lemma findBall_less: "findBall i bs = Some k \<Longrightarrow> k < length bs"
  by (induction bs arbitrary: k) (auto split: if_splits)

lemma drag_frozen:
  assumes "isPinned (bs ! k)" "\<not> isPinned (bs ! m)"
  shows "bs[m := v] ! k = bs ! k"
proof -
  have "m \<noteq> k" using assms by auto
  then show ?thesis by simp
qed

lemma handlePointerMove_frozen:
  assumes "isPinned (balls st ! k)"
  shows "balls (handlePointerMove e st) ! k = balls st ! k
         \<and> length (balls (handlePointerMove e st)) = length (balls st)"
  using assms
  by (simp add: handlePointerMove_def Let_def drag_frozen split: option.splits)

lemma togglePin_length: "togglePin p bs = (found, bs') \<Longrightarrow> length bs' = length bs"
  by (induction bs arbitrary: found bs') (auto split: if_splits prod.splits)

lemma togglePin_effect:
  assumes "togglePin p bs = (found, bs')" "k < length bs"
  shows "pos (bs' ! k) = pos (bs ! k)
       \<and> (\<not> isPinned (bs ! k) \<and> isPinned (bs' ! k) \<longrightarrow> vel (bs' ! k) = \<lparr>x = 0, y = 0\<rparr>)
       \<and> (\<not> isPinned (bs' ! k) \<longrightarrow> vel (bs' ! k) = vel (bs ! k))"
  using assms
proof (induction bs arbitrary: found bs' k)
  case Nil
  then show ?case by simp
next
  case (Cons ball rest)
  show ?case
  proof (cases "distV p (pos ball) < radius ball + 15")
    case True
    then show ?thesis using Cons.prems by (cases k) (auto split: if_splits)
  next
    case False
    obtain f r where t: "togglePin p rest = (f, r)" by (cases "togglePin p rest") auto
    with False Cons.prems(1) have bs': "bs' = ball # r" by simp
    show ?thesis
    proof (cases k)
      case 0
      then show ?thesis by (simp add: bs')
    next
      case (Suc m)
      then show ?thesis using Cons.IH [OF t, of m] Cons.prems(2) by (simp add: bs')
    qed
  qed
qed

lemma togglePin_keeps:
  assumes "togglePin p bs = (found, bs')" "k < length bs" "isPinned (bs ! k)"
  shows "vel (bs' ! k) = vel (bs ! k)"
  using assms
proof (induction bs arbitrary: found bs' k)
  case Nil
  then show ?case by simp
next
  case (Cons ball rest)
  show ?case
  proof (cases "distV p (pos ball) < radius ball + 15")
    case True
    then show ?thesis using Cons.prems by (cases k) (auto split: if_splits)
  next
    case False
    obtain f r where t: "togglePin p rest = (f, r)" by (cases "togglePin p rest") auto
    with False Cons.prems(1) have bs': "bs' = ball # r" by simp
    show ?thesis
    proof (cases k)
      case 0
      then show ?thesis by (simp add: bs')
    next
      case (Suc m)
      then show ?thesis using Cons.IH [OF t, of m] Cons.prems(2,3) by (simp add: bs')
    qed
  qed
qed

text \<open>
  C4. \<open>togglePin\<close> moves no ball; a ball that it pins gets the zero velocity, and a ball
  that was pinned keeps its velocity, also when it is unpinned. The loop over the balls
  skips a pinned ball, \<open>collide\<close> returns a pinned partner as it is, and over a whole
  frame (all sub-steps with integration, ball-ball and wall collisions, removal and
  respawn, then the trails) the list of pinned balls, with their positions and
  velocities, is unchanged. A pointer move changes no pinned ball, whatever is being
  dragged, and pointer down and up change no ball at all.
\<close>

theorem pinned_body_frozen:
  "(togglePin p bs = (found, bs') \<and> k < length bs \<longrightarrow>
      pos (bs' ! k) = pos (bs ! k)
      \<and> (\<not> isPinned (bs ! k) \<and> isPinned (bs' ! k) \<longrightarrow> vel (bs' ! k) = \<lparr>x = 0, y = 0\<rparr>)
      \<and> (isPinned (bs ! k) \<longrightarrow> vel (bs' ! k) = vel (bs ! k)))
   \<and> (isPinned (balls st ! b) \<longrightarrow> processBall cfg elast env rnd step b st = st)
   \<and> (isPinned other \<longrightarrow> fst (snd (collide cfg elast ball other)) = other)
   \<and> filter isPinned (balls (update cfg paused env micAverage rnds st))
       = filter isPinned (balls st)
   \<and> (m < length (balls st) \<and> isPinned (balls st ! m) \<longrightarrow>
        balls (handlePointerMove e st) ! m = balls st ! m)
   \<and> length (balls (handlePointerMove e st)) = length (balls st)
   \<and> balls (handlePointerDown cfg paused e st) = balls st
   \<and> balls (handlePointerUp st) = balls st"
proof (intro conjI impI)
  assume t: "togglePin p bs = (found, bs') \<and> k < length bs"
  then show "pos (bs' ! k) = pos (bs ! k)" using togglePin_effect by blast
  show "vel (bs' ! k) = \<lparr>x = 0, y = 0\<rparr>" if "\<not> isPinned (bs ! k) \<and> isPinned (bs' ! k)"
    using t that togglePin_effect by blast
  show "vel (bs' ! k) = vel (bs ! k)" if "isPinned (bs ! k)"
    using t that togglePin_keeps by blast
next
  assume "isPinned (balls st ! b)"
  then show "processBall cfg elast env rnd step b st = st" by (simp add: processBall_def)
next
  assume "isPinned other"
  then show "fst (snd (collide cfg elast ball other)) = other" by (rule collide_pinned_other)
next
  show "filter isPinned (balls (update cfg paused env micAverage rnds st))
       = filter isPinned (balls st)"
    by (rule update_frozen)
next
  assume "m < length (balls st) \<and> isPinned (balls st ! m)"
  then show "balls (handlePointerMove e st) ! m = balls st ! m"
    by (simp add: handlePointerMove_frozen)
next
  show "length (balls (handlePointerMove e st)) = length (balls st)"
    by (simp add: handlePointerMove_def Let_def split: option.splits)
next
  show "balls (handlePointerDown cfg paused e st) = balls st"
    by (simp add: handlePointerDown_def Let_def split: option.splits)
next
  show "balls (handlePointerUp st) = balls st" by (simp add: handlePointerUp_def)
qed

theorem pinned_body_frozen_witness:
  "togglePin \<lparr>x = 0, y = 0\<rparr> [ball0] = (True, [pinned0])
   \<and> vel ([pinned0] ! 0) = \<lparr>x = 0, y = 0\<rparr>
   \<and> togglePin \<lparr>x = 0, y = 0\<rparr> [pinned0] = (True, [pinned0\<lparr>isPinned := False\<rparr>])
   \<and> vel ([pinned0\<lparr>isPinned := False\<rparr>] ! 0) = vel ([pinned0] ! 0)
   \<and> processBall cfg0 1 env0 (\<lambda>s b k. 0) 0 0 stDrag = stDrag
   \<and> balls (handlePointerMove ev0 stDrag) ! 0 = balls stDrag ! 0"
proof -
  have pin: "togglePin \<lparr>x = 0, y = 0\<rparr> [ball0] = (True, [pinned0])"
    by (simp add: ball0_def pinned0_def distV_def sub_def mag_axis_x)
  have unpin: "togglePin \<lparr>x = 0, y = 0\<rparr> [pinned0] = (True, [pinned0\<lparr>isPinned := False\<rparr>])"
    by (simp add: ball0_def pinned0_def distV_def sub_def mag_axis_x)
  have flags: "\<not> isPinned ([ball0] ! 0)" "isPinned ([pinned0] ! 0)"
    "\<not> isPinned ([pinned0\<lparr>isPinned := False\<rparr>] ! 0)"
    by (simp_all add: ball0_def pinned0_def)
  have st: "0 < length (balls stDrag)" "isPinned (balls stDrag ! 0)"
    by (simp_all add: stDrag_def stOf_def pinned0_def)
  note a = pinned_body_frozen [where p = "\<lparr>x = 0, y = 0\<rparr>" and bs = "[ball0]" and found = True
      and bs' = "[pinned0]" and k = 0 and st = stDrag and b = 0 and m = 0
      and cfg = cfg0 and elast = 1 and env = env0 and rnd = "\<lambda>s b k. 0" and step = 0 and e = ev0]
  note b = pinned_body_frozen [where p = "\<lparr>x = 0, y = 0\<rparr>" and bs = "[pinned0]" and found = True
      and bs' = "[pinned0\<lparr>isPinned := False\<rparr>]" and k = 0]
  have 1: "vel ([pinned0] ! 0) = \<lparr>x = 0, y = 0\<rparr>" using a pin flags by simp
  have 2: "vel ([pinned0\<lparr>isPinned := False\<rparr>] ! 0) = vel ([pinned0] ! 0)"
    using b unpin flags by simp
  have 3: "processBall cfg0 1 env0 (\<lambda>s b k. 0) 0 0 stDrag = stDrag" using a st by blast
  have 4: "balls (handlePointerMove ev0 stDrag) ! 0 = balls stDrag ! 0" using a st by blast
  from pin unpin 1 2 3 4 show ?thesis by blast
qed

end
